theory Spec2Isabelle
  imports Main "HOL-Library.Sublist"
begin

section \<open>Strings\<close>

text \<open>
  A JavaScript string is a sequence of UTF-16 code units. The model uses HOL's \<open>string\<close>
  (a list of 8-bit characters) and reads a character as the code unit of the same number,
  so it covers the strings whose code units are below 256 (ASCII and Latin-1). All the
  program's own literals used here are ASCII.
\<close>

definition NL :: char where
  "NL = CHR 0x0A"

definition startsWith :: "string \<Rightarrow> string \<Rightarrow> bool" where
  \<comment> \<open>\<open>s.startsWith(p)\<close>\<close>
  "startsWith s p = (take (length p) s = p)"

fun join :: "string \<Rightarrow> string list \<Rightarrow> string" where
  \<comment> \<open>\<open>xs.join(sep)\<close>\<close>
  "join sep [] = []"
| "join sep [x] = x"
| "join sep (x # y # ys) = x @ sep @ join sep (y # ys)"

section \<open>The preset catalog (presets.ts)\<close>

record ThemePalette =
  background :: string
  foreground :: string
  codeBackground :: string
  codeForeground :: string
  border :: string
  link :: string
  linkHover :: string

record Palette =
  light :: ThemePalette
  dark :: ThemePalette

text \<open>The field \<open>id\<close> of the source is \<open>id_preset\<close> here (\<open>id\<close> is HOL's identity).
  An optional field is an \<open>option\<close>.\<close>

record StylePreset =
  id_preset :: string
  label :: string
  description :: string
  fontImports :: "string list"
  fontFamily :: string
  headingFontFamily :: "string option"
  monoFontFamily :: "string option"
  palette :: Palette
  extraCSS :: "string option"

definition geist_prose :: StylePreset where
  \<open>geist_prose = \<lparr>
    id_preset = ''geist-prose'',
    label = ''Geist Prose'',
    description = ''Geist Sans & Mono with Tailwind prose-inspired colors'',
    fontImports = [
      ''<link rel="preconnect" href="https://fonts.googleapis.com">'',
      ''<link rel="preconnect" href="https://fonts.gstatic.com" crossorigin>'',
      ''<link href="https://fonts.googleapis.com/css2?family=Geist:wght@300..800&family=Geist+Mono:wght@400..700&display=swap" rel="stylesheet">''
    ],
    fontFamily = ''"Geist", -apple-system, BlinkMacSystemFont, "Segoe UI", sans-serif'',
    headingFontFamily = Some ''"Geist", -apple-system, BlinkMacSystemFont, "Segoe UI", sans-serif'',
    monoFontFamily = Some ''"Geist Mono", SFMono-Regular, Menlo, Monaco, Consolas, "Liberation Mono", monospace'',
    palette = \<lparr>
      light = \<lparr>
        background = ''linear-gradient(135deg, #f8fafc 0%, #f1f5f9 100%)'',
        foreground = ''#0f172a'',
        codeBackground = ''#e2e8f0'',
        codeForeground = ''#0f172a'',
        border = ''#cbd5f5'',
        link = ''#2563eb'',
        linkHover = ''#1d4ed8''
      \<rparr>,
      dark = \<lparr>
        background = ''linear-gradient(160deg, #0b1120 0%, #111827 45%, #020617 100%)'',
        foreground = ''#e2e8f0'',
        codeBackground = ''#1e293b'',
        codeForeground = ''#e2e8f0'',
        border = ''#334155'',
        link = ''#93c5fd'',
        linkHover = ''#bfdbfe''
      \<rparr>
    \<rparr>,
    extraCSS = Some (concat [
      ''    h1, h2, h3, h4, h5, h6 {\<newline>'',
      ''      letter-spacing: -0.01em;\<newline>'',
      ''    }\<newline>'',
      ''    a {\<newline>'',
      ''      text-decoration: none;\<newline>'',
      ''    }\<newline>'',
      ''    a:hover, a:focus {\<newline>'',
      ''      text-decoration: underline;\<newline>'',
      ''    }\<newline>'',
      ''    img {\<newline>'',
      ''      border-radius: 0.75rem;\<newline>'',
      ''    }\<newline>'',
      ''    blockquote {\<newline>'',
      ''      border-left-width: 0.25rem;\<newline>'',
      ''    }\<newline>''
    ])
  \<rparr>\<close>

definition inter_ui :: StylePreset where
  \<open>inter_ui = \<lparr>
    id_preset = ''inter-ui'',
    label = ''Inter UI'',
    description = ''Inter with neutral slate prose colors'',
    fontImports = [
      ''<link rel="preconnect" href="https://fonts.googleapis.com">'',
      ''<link rel="preconnect" href="https://fonts.gstatic.com" crossorigin>'',
      ''<link href="https://fonts.googleapis.com/css2?family=Inter:wght@300;400;500;600;700&display=swap" rel="stylesheet">''
    ],
    fontFamily = ''"Inter", -apple-system, BlinkMacSystemFont, "Segoe UI", sans-serif'',
    headingFontFamily = Some ''"Inter", -apple-system, BlinkMacSystemFont, "Segoe UI", sans-serif'',
    monoFontFamily = Some ''SFMono-Regular, Menlo, Monaco, Consolas, "Liberation Mono", monospace'',
    palette = \<lparr>
      light = \<lparr>
        background = ''#f8fafc'',
        foreground = ''#0f172a'',
        codeBackground = ''#e2e8f0'',
        codeForeground = ''#0f172a'',
        border = ''#cbd5f5'',
        link = ''#2563eb'',
        linkHover = ''#1d4ed8''
      \<rparr>,
      dark = \<lparr>
        background = ''#020617'',
        foreground = ''#e2e8f0'',
        codeBackground = ''#1e293b'',
        codeForeground = ''#e2e8f0'',
        border = ''#334155'',
        link = ''#93c5fd'',
        linkHover = ''#bfdbfe''
      \<rparr>
    \<rparr>,
    extraCSS = Some (concat [
      ''    h1, h2, h3, h4, h5, h6 {\<newline>'',
      ''      font-family: var(--font-heading);\<newline>'',
      ''      font-weight: 600;\<newline>'',
      ''    }\<newline>''
    ])
  \<rparr>\<close>

definition PRESETS :: "StylePreset list" where
  "PRESETS = [geist_prose, inter_ui]"

definition listPresets :: "StylePreset list" where
  "listPresets = PRESETS"

definition resolvePreset :: "string \<Rightarrow> StylePreset option" where
  \<comment> \<open>\<open>PRESETS.find((preset) => preset.id === id)\<close>; \<open>undefined\<close> is \<open>None\<close>\<close>
  "resolvePreset i = find (\<lambda>preset. id_preset preset = i) PRESETS"

section \<open>Theme preference and style composition (markdown-render.ts)\<close>

datatype ThemePreference = Auto | Light | Dark

fun themeString :: "ThemePreference \<Rightarrow> string" where
  \<comment> \<open>the string a \<open>ThemePreference\<close> is in the source\<close>
  "themeString Auto = ''auto''"
| "themeString Light = ''light''"
| "themeString Dark = ''dark''"

definition colorSchemeFor :: "ThemePreference \<Rightarrow> string" where
  \<comment> \<open>renderHtmlDocument: \<open>theme === 'auto' ? 'light dark' : theme\<close>\<close>
  "colorSchemeFor theme = (if theme = Auto then ''light dark'' else themeString theme)"

definition DEFAULT_MONO :: string where
  \<open>DEFAULT_MONO = ''SFMono-Regular, Menlo, Monaco, Consolas, "Liberation Mono", monospace''\<close>

definition SHARED_STYLES :: string where
  \<open>SHARED_STYLES = concat [
    ''    body {\<newline>'',
    ''      margin: 0 auto;\<newline>'',
    ''      max-width: 56rem;\<newline>'',
    ''      padding: 3rem 1rem 4rem;\<newline>'',
    ''      background: var(--bg);\<newline>'',
    ''      color: var(--fg);\<newline>'',
    ''    }\<newline>'',
    ''    h1, h2, h3, h4, h5, h6 {\<newline>'',
    ''      line-height: 1.3;\<newline>'',
    ''      margin-top: 2.4rem;\<newline>'',
    ''      margin-bottom: 1rem;\<newline>'',
    ''      font-weight: 650;\<newline>'',
    ''    }\<newline>'',
    ''    h1 { font-size: 2.5rem; }\<newline>'',
    ''    h2 { font-size: 2rem; }\<newline>'',
    ''    h3 { font-size: 1.5rem; }\<newline>'',
    ''    h4 { font-size: 1.25rem; }\<newline>'',
    ''    p, li {\<newline>'',
    ''      margin-top: 0.75rem;\<newline>'',
    ''      margin-bottom: 0.75rem;\<newline>'',
    ''      font-size: 1rem;\<newline>'',
    ''    }\<newline>'',
    ''    a {\<newline>'',
    ''      color: var(--link);\<newline>'',
    ''      text-decoration: underline;\<newline>'',
    ''      text-decoration-thickness: 2px;\<newline>'',
    ''    }\<newline>'',
    ''    a:hover, a:focus {\<newline>'',
    ''      color: var(--link-hover);\<newline>'',
    ''    }\<newline>'',
    ''    pre {\<newline>'',
    ''      background: var(--code-bg);\<newline>'',
    ''      color: var(--code-fg);\<newline>'',
    ''      padding: 1rem;\<newline>'',
    ''      overflow: auto;\<newline>'',
    ''      border-radius: 0.5rem;\<newline>'',
    ''      border: 1px solid var(--border);\<newline>'',
    ''    }\<newline>'',
    ''    code {\<newline>'',
    ''      font-family: var(--font-mono);\<newline>'',
    ''      background: var(--code-bg);\<newline>'',
    ''      color: var(--code-fg);\<newline>'',
    ''      padding: 0.15rem 0.35rem;\<newline>'',
    ''      border-radius: 0.35rem;\<newline>'',
    ''    }\<newline>'',
    ''    pre code {\<newline>'',
    ''      padding: 0;\<newline>'',
    ''      background: transparent;\<newline>'',
    ''    }\<newline>'',
    ''    blockquote {\<newline>'',
    ''      margin: 1.5rem 0;\<newline>'',
    ''      padding: 0.75rem 1rem;\<newline>'',
    ''      border-left: 4px solid var(--border);\<newline>'',
    ''      background: var(--code-bg);\<newline>'',
    ''      color: var(--fg);\<newline>'',
    ''      border-radius: 0 0.5rem 0.5rem 0;\<newline>'',
    ''    }\<newline>'',
    ''    table {\<newline>'',
    ''      border-collapse: collapse;\<newline>'',
    ''      width: 100%;\<newline>'',
    ''      margin: 1.5rem 0;\<newline>'',
    ''    }\<newline>'',
    ''    th, td {\<newline>'',
    ''      border: 1px solid var(--border);\<newline>'',
    ''      padding: 0.5rem 0.75rem;\<newline>'',
    ''      text-align: left;\<newline>'',
    ''    }\<newline>'',
    ''    img, video {\<newline>'',
    ''      max-width: 100%;\<newline>'',
    ''      height: auto;\<newline>'',
    ''      border-radius: 0.4rem;\<newline>'',
    ''    }\<newline>''
  ]\<close>

text \<open>The three template literals of \<open>buildStyles\<close>, each a definition of its own.\<close>

definition rootBlock :: "ThemePreference \<Rightarrow> StylePreset \<Rightarrow> string \<Rightarrow> string" where
  "rootBlock theme preset colorScheme =
    (let basePalette = (if theme = Dark then dark (palette preset) else light (palette preset))
     in concat [
      ''    :root {\<newline>'',
      ''      color-scheme: '', colorScheme, '';\<newline>'',
      ''      --bg: '', background basePalette, '';\<newline>'',
      ''      --fg: '', foreground basePalette, '';\<newline>'',
      ''      --code-bg: '', codeBackground basePalette, '';\<newline>'',
      ''      --code-fg: '', codeForeground basePalette, '';\<newline>'',
      ''      --border: '', border basePalette, '';\<newline>'',
      ''      --link: '', link basePalette, '';\<newline>'',
      ''      --link-hover: '', linkHover basePalette, '';\<newline>'',
      ''      --font-body: '', fontFamily preset, '';\<newline>'',
      ''      --font-heading: '',
        (case headingFontFamily preset of None \<Rightarrow> fontFamily preset | Some h \<Rightarrow> h), '';\<newline>'',
      ''      --font-mono: '',
        (case monoFontFamily preset of None \<Rightarrow> DEFAULT_MONO | Some m \<Rightarrow> m), '';\<newline>'',
      ''      line-height: 1.6;\<newline>'',
      ''    }\<newline>''
     ])"

definition darkBlock :: "ThemePreference \<Rightarrow> StylePreset \<Rightarrow> string" where
  "darkBlock theme preset =
    (if theme = Auto then concat [
      ''    @media (prefers-color-scheme: dark) {\<newline>'',
      ''      :root {\<newline>'',
      ''        --bg: '', background (dark (palette preset)), '';\<newline>'',
      ''        --fg: '', foreground (dark (palette preset)), '';\<newline>'',
      ''        --code-bg: '', codeBackground (dark (palette preset)), '';\<newline>'',
      ''        --code-fg: '', codeForeground (dark (palette preset)), '';\<newline>'',
      ''        --border: '', border (dark (palette preset)), '';\<newline>'',
      ''        --link: '', link (dark (palette preset)), '';\<newline>'',
      ''        --link-hover: '', linkHover (dark (palette preset)), '';\<newline>'',
      ''      }\<newline>'',
      ''    }\<newline>''
     ]
     else [])"

definition typographyBlock :: string where
  "typographyBlock = concat [
    ''    body {\<newline>'',
    ''      font-family: var(--font-body);\<newline>'',
    ''    }\<newline>'',
    ''    h1, h2, h3, h4, h5, h6 {\<newline>'',
    ''      font-family: var(--font-heading);\<newline>'',
    ''    }\<newline>'',
    ''    code, pre code {\<newline>'',
    ''      font-family: var(--font-mono);\<newline>'',
    ''    }\<newline>''
  ]"

definition buildStyles :: "ThemePreference \<Rightarrow> StylePreset \<Rightarrow> string \<Rightarrow> string" where
  "buildStyles theme preset colorScheme =
    join [NL]
      (filter (\<lambda>chunk. length chunk > 0)
        [rootBlock theme preset colorScheme,
         darkBlock theme preset,
         SHARED_STYLES,
         typographyBlock,
         (case extraCSS preset of None \<Rightarrow> [] | Some css \<Rightarrow> css)])"

section \<open>JavaScript string and regular-expression primitives\<close>

text \<open>
  Line terminators and white space of ECMAScript, restricted to code units below 256:
  \<open>.\<close> matches every character but a line terminator, \<open>\s\<close> and \<open>trim\<close> take white space
  and line terminators alike.
\<close>

definition isLineTerminator :: "char \<Rightarrow> bool" where
  "isLineTerminator c = (c = CHR 0x0A \<or> c = CHR 0x0D)"

definition isWhiteSpace :: "char \<Rightarrow> bool" where
  \<comment> \<open>the class \<open>\s\<close>: TAB, LF, VT, FF, CR, SPACE, NBSP\<close>
  "isWhiteSpace c =
     (c = CHR 0x09 \<or> c = CHR 0x0A \<or> c = CHR 0x0B \<or> c = CHR 0x0C \<or> c = CHR 0x0D
      \<or> c = CHR 0x20 \<or> c = CHR 0xA0)"

definition trim :: "string \<Rightarrow> string" where
  \<comment> \<open>\<open>s.trim()\<close>\<close>
  "trim s = rev (dropWhile isWhiteSpace (rev (dropWhile isWhiteSpace s)))"

definition toLowerCaseChar :: "char \<Rightarrow> char" where
  \<comment> \<open>A-Z and the capital letters of Latin-1 (0xC0-0xDE but the sign 0xD7) are 32 below
      their small letters\<close>
  "toLowerCaseChar c =
     (let n = (of_char c :: nat) in
      if (65 \<le> n \<and> n \<le> 90) \<or> (192 \<le> n \<and> n \<le> 222 \<and> n \<noteq> 215) then char_of (n + 32) else c)"

definition toLowerCase :: "string \<Rightarrow> string" where
  \<comment> \<open>\<open>s.toLowerCase()\<close>\<close>
  "toLowerCase s = map toLowerCaseChar s"

fun splitOn :: "char \<Rightarrow> string \<Rightarrow> string list" where
  \<comment> \<open>\<open>s.split(c)\<close> for a separator of one character\<close>
  "splitOn sep [] = [[]]"
| "splitOn sep (c # cs) =
     (if c = sep then [] # splitOn sep cs
      else (case splitOn sep cs of [] \<Rightarrow> [[c]] | p # ps \<Rightarrow> (c # p) # ps))"

text \<open>
  A quantifier over a character class, with the backtracking order of ECMAScript: the
  continuation \<open>k\<close> gets the text consumed and the text left, and the first count of
  repetitions for which it succeeds is taken. A greedy quantifier tries the longest run
  first, a lazy one the shortest; \<open>m\<close> is the least count (0 for \<open>*\<close>, 1 for \<open>+\<close>).
\<close>

fun firstSome :: "('a \<Rightarrow> 'b option) \<Rightarrow> 'a list \<Rightarrow> 'b option" where
  "firstSome f [] = None"
| "firstSome f (x # xs) = (case f x of Some y \<Rightarrow> Some y | None \<Rightarrow> firstSome f xs)"

definition greedyRun ::
  "(char \<Rightarrow> bool) \<Rightarrow> nat \<Rightarrow> string \<Rightarrow> (string \<Rightarrow> string \<Rightarrow> 'a option) \<Rightarrow> 'a option" where
  "greedyRun cls m s k =
     firstSome (\<lambda>n. k (take n s) (drop n s)) (rev [m ..< Suc (length (takeWhile cls s))])"

definition lazyRun ::
  "(char \<Rightarrow> bool) \<Rightarrow> nat \<Rightarrow> string \<Rightarrow> (string \<Rightarrow> string \<Rightarrow> 'a option) \<Rightarrow> 'a option" where
  "lazyRun cls m s k =
     firstSome (\<lambda>n. k (take n s) (drop n s)) [m ..< Suc (length (takeWhile cls s))]"

section \<open>Rendering (markdown-render.ts)\<close>

subsection \<open>escapeHtml\<close>

definition replaceAllChar :: "char \<Rightarrow> string \<Rightarrow> string \<Rightarrow> string" where
  \<comment> \<open>\<open>s.replace(/c/g, r)\<close> for one literal character \<open>c\<close> and a replacement without \<open>$\<close>\<close>
  "replaceAllChar c r s = concat (map (\<lambda>x. if x = c then r else [x]) s)"

definition escapeHtml :: "string \<Rightarrow> string" where
  \<open>escapeHtml v =
     replaceAllChar (CHR 0x27) ''&#39;''
       (replaceAllChar (CHR 0x22) ''&quot;''
         (replaceAllChar (CHR ''>'') ''&gt;''
           (replaceAllChar (CHR ''<'') ''&lt;''
             (replaceAllChar (CHR ''&'') ''&amp;'' v))))\<close>

subsection \<open>renderMarkdown\<close>

text \<open>
  \<open>/```mermaid\s*([\s\S]*?)```/\<close> tried at the start of \<open>s\<close>: the body captured and the
  text after the match.
\<close>

definition mermaidMatchAt :: "string \<Rightarrow> (string \<times> string) option" where
  "mermaidMatchAt s =
     (if startsWith s ''```mermaid'' then
        greedyRun isWhiteSpace 0 (drop 10 s) (\<lambda>_ s1.
          lazyRun (\<lambda>_. True) 0 s1 (\<lambda>code s2.
            if startsWith s2 ''```'' then Some (code, drop 3 s2) else None))
      else None)"

text \<open>\<open>code.replace(/\s+$/, '')\<close>: the first position from which white space runs to the
  end of the text is where the text is cut.\<close>

definition trailingRunAt :: "string \<Rightarrow> bool" where
  \<comment> \<open>\<open>/\s+$/\<close> matches at the start of \<open>s\<close>\<close>
  "trailingRunAt s =
     (greedyRun isWhiteSpace 1 s (\<lambda>_ r. if r = [] then Some () else None) \<noteq> None)"

fun removeTrailingWhiteSpace :: "string \<Rightarrow> string" where
  "removeTrailingWhiteSpace [] = []"
| "removeTrailingWhiteSpace (c # cs) =
     (if trailingRunAt (c # cs) then [] else c # removeTrailingWhiteSpace cs)"

definition mermaidDiv :: "string \<Rightarrow> string" where
  \<comment> \<open>the callback of the replacement\<close>
  \<open>mermaidDiv code =
     (let trimmed = removeTrailingWhiteSpace code
      in ''\<newline><div class="mermaid">'' @ escapeHtml trimmed @ ''</div>\<newline>'')\<close>

lemma firstSome_witness:
  "firstSome f xs = Some y \<Longrightarrow> \<exists>x\<in>set xs. f x = Some y"
  by (induction xs) (auto split: option.splits)

lemma greedyRun_Some:
  assumes "greedyRun cls m s k = Some r"
  shows "\<exists>n. k (take n s) (drop n s) = Some r"
  using firstSome_witness[OF assms[unfolded greedyRun_def]] by blast

lemma lazyRun_Some:
  assumes "lazyRun cls m s k = Some r"
  shows "\<exists>n. k (take n s) (drop n s) = Some r"
  using firstSome_witness[OF assms[unfolded lazyRun_def]] by blast

lemma mermaidMatchAt_shorter:
  assumes "mermaidMatchAt s = Some (code, rest)"
  shows "length rest < length s"
proof -
  from assms have sw: "startsWith s ''```mermaid''"
    by (auto simp: mermaidMatchAt_def split: if_splits)
  then have len: "10 \<le> length s"
    by (auto simp: startsWith_def dest: arg_cong[where f = length])
  from assms sw have "greedyRun isWhiteSpace 0 (drop 10 s) (\<lambda>_ s1.
          lazyRun (\<lambda>_. True) 0 s1 (\<lambda>code s2.
            if startsWith s2 ''```'' then Some (code, drop 3 s2) else None)) = Some (code, rest)"
    by (simp add: mermaidMatchAt_def)
  from greedyRun_Some[OF this] obtain n1 where
    "lazyRun (\<lambda>_. True) 0 (drop n1 (drop 10 s)) (\<lambda>code s2.
            if startsWith s2 ''```'' then Some (code, drop 3 s2) else None) = Some (code, rest)"
    by blast
  from lazyRun_Some[OF this] obtain n2 where
    "(if startsWith (drop n2 (drop n1 (drop 10 s))) ''```''
      then Some (take n2 (drop n1 (drop 10 s)), drop 3 (drop n2 (drop n1 (drop 10 s))))
      else None) = Some (code, rest)"
    by blast
  then have "rest = drop 3 (drop n2 (drop n1 (drop 10 s)))"
    by (simp split: if_splits)
  with len show ?thesis by simp
qed

text \<open>
  \<open>markdownContent.replace(/```mermaid\s*([\s\S]*?)```/g, callback)\<close>: the matches are
  sought from left to right, each search starting where the previous match ended; the
  text between matches is kept. The flag is what the callback leaves in \<open>mermaidDetected\<close>.
\<close>

function replaceMermaid :: "string \<Rightarrow> string \<times> bool" where
  "replaceMermaid s =
     (case mermaidMatchAt s of
        Some (code, rest) \<Rightarrow> (mermaidDiv code @ fst (replaceMermaid rest), True)
      | None \<Rightarrow>
         (case s of
            [] \<Rightarrow> ([], False)
          | c # cs \<Rightarrow> (c # fst (replaceMermaid cs), snd (replaceMermaid cs))))"
  by pat_completeness auto
termination
  by (relation "measure length") (auto simp: mermaidMatchAt_shorter)

subsection \<open>deriveTitle\<close>

text \<open>
  \<open>/^\s*#\s+(.+)$/m\<close> tried at one position: \<open>prev\<close> is the character before the position
  (none at the start of the text), \<open>s\<close> the text from the position on. The result is the
  text of group 1.
\<close>

definition atLineStart :: "char option \<Rightarrow> bool" where
  \<comment> \<open>\<open>^\<close> under the flag \<open>m\<close>\<close>
  "atLineStart prev = (case prev of None \<Rightarrow> True | Some c \<Rightarrow> isLineTerminator c)"

definition atLineEnd :: "string \<Rightarrow> bool" where
  \<comment> \<open>\<open>$\<close> under the flag \<open>m\<close>\<close>
  "atLineEnd s = (case s of [] \<Rightarrow> True | c # _ \<Rightarrow> isLineTerminator c)"

definition headingMatchAt :: "char option \<Rightarrow> string \<Rightarrow> string option" where
  "headingMatchAt prev s =
     (if atLineStart prev then
        greedyRun isWhiteSpace 0 s (\<lambda>_ s1.
          case s1 of
            [] \<Rightarrow> None
          | c # s2 \<Rightarrow>
              if c = CHR ''#'' then
                greedyRun isWhiteSpace 1 s2 (\<lambda>_ s3.
                  greedyRun (\<lambda>c. \<not> isLineTerminator c) 1 s3 (\<lambda>group1 s4.
                    if atLineEnd s4 then Some group1 else None))
              else None)
      else None)"

text \<open>\<open>String.prototype.match\<close> without the flag \<open>g\<close>: the first position, from the left,
  at which the expression matches.\<close>

fun headingSearch :: "char option \<Rightarrow> string \<Rightarrow> string option" where
  "headingSearch prev [] = headingMatchAt prev []"
| "headingSearch prev (c # cs) =
     (case headingMatchAt prev (c # cs) of
        Some g \<Rightarrow> Some g
      | None \<Rightarrow> headingSearch (Some c) cs)"

section \<open>The process and its collaborators\<close>

text \<open>
  What the program takes from outside: the file system, the libraries \<open>marked\<close>,
  \<open>mustache\<close> and \<open>open\<close>, Node's \<open>path\<close> and \<open>os\<close> modules and the environment. A call
  that can fail returns the error it throws (or rejects with).
\<close>

record JsError =
  message :: string
  stack :: "string option"

record TemplateView =
  view_title :: string
  view_body :: string
  view_styles :: string
  view_colorScheme :: string
  view_fontImports :: string
  view_headScripts :: string
  view_bodyScripts :: string
  view_bodyClass :: string

record World =
  readFile :: "string \<Rightarrow> JsError + string"
  mkdtemp :: "string \<Rightarrow> JsError + string"
  writeFile :: "string \<Rightarrow> string \<Rightarrow> JsError option"
  openBrowser :: "string \<Rightarrow> JsError option"
  markedParse :: "string \<Rightarrow> string"
  mustacheRender :: "string \<Rightarrow> TemplateView \<Rightarrow> string"
  pathResolve :: "string \<Rightarrow> string"
  pathBasename :: "string \<Rightarrow> string \<Rightarrow> string"
  pathExtname :: "string \<Rightarrow> string"
  pathJoin :: "string \<Rightarrow> string \<Rightarrow> string"
  tmpdir :: string
  TEMPLATE_PATH :: string
  env_MARKDOWN_RENDER_NO_OPEN :: bool
  env_DEBUG :: bool

datatype Effect =
    ReadFile string
  | Mkdtemp string
  | WriteFile string string
  | OpenBrowser string

text \<open>The state of the process: exit code, the two output streams, the module variable
  \<open>templateCache\<close> (a promise is modelled by its outcome) and the log of external calls.\<close>

record Proc =
  exitCode :: nat
  stdout :: string
  stderr :: string
  templateCache :: "(JsError + string) option"
  effects :: "Effect list"

definition initialProc :: Proc where
  "initialProc = \<lparr>exitCode = 0, stdout = [], stderr = [], templateCache = None, effects = []\<rparr>"

definition renderMarkdown :: "World \<Rightarrow> string \<Rightarrow> string \<times> bool" where
  \<comment> \<open>the pair is \<open>{htmlBody, mermaidDetected}\<close>\<close>
  "renderMarkdown w markdownContent =
     (let (processed, mermaidDetected) = replaceMermaid markdownContent
      in (markedParse w processed, mermaidDetected))"

definition deriveTitle :: "World \<Rightarrow> string \<Rightarrow> string \<Rightarrow> string" where
  "deriveTitle w markdownContent sourcePath =
     (case (case headingSearch None markdownContent of
              None \<Rightarrow> None
            | Some group1 \<Rightarrow> if group1 = [] then None else Some group1) of
        Some group1 \<Rightarrow> trim group1
      | None \<Rightarrow>
          (let baseName = pathBasename w sourcePath (pathExtname w sourcePath)
           in if baseName = [] then ''Markdown Preview'' else baseName))"

definition loadTemplate :: "World \<Rightarrow> Proc \<Rightarrow> (JsError + string) \<times> Proc" where
  "loadTemplate w p =
     (case templateCache p of
        None \<Rightarrow>
          (let promise = readFile w (TEMPLATE_PATH w)
           in (promise, p\<lparr>templateCache := Some promise,
                          effects := effects p @ [ReadFile (TEMPLATE_PATH w)]\<rparr>))
      | Some promise \<Rightarrow> (promise, p))"

definition renderHtmlDocument ::
  "World \<Rightarrow> string \<Rightarrow> string \<Rightarrow> ThemePreference \<Rightarrow> StylePreset \<Rightarrow> bool \<Rightarrow> Proc
     \<Rightarrow> (JsError + string) \<times> Proc" where
  \<open>renderHtmlDocument w title body pref preset mermaidDetected p =
     (case loadTemplate w p of
        (Inl err, p1) \<Rightarrow> (Inl err, p1)
      | (Inr template, p1) \<Rightarrow>
          (let colorScheme = colorSchemeFor pref;
               styles = buildStyles pref preset colorScheme;
               imports = join ''\<newline>    '' (fontImports preset);
               headScripts = (if mermaidDetected
                 then ''<script src="https://cdn.jsdelivr.net/npm/mermaid@10/dist/mermaid.min.js"></script>''
                 else []);
               bodyScripts = (if mermaidDetected
                 then ''<script>if (window.mermaid) { mermaid.initialize({ startOnLoad: true, theme: "default" }); }</script>''
                 else [])
           in (Inr (mustacheRender w template
                 \<lparr>view_title = title, view_body = body, view_styles = styles,
                  view_colorScheme = colorScheme, view_fontImports = imports,
                  view_headScripts = headScripts, view_bodyScripts = bodyScripts,
                  view_bodyClass = ''preset-'' @ id_preset preset\<rparr>), p1)))\<close>

definition writeToTempFile :: "World \<Rightarrow> string \<Rightarrow> string \<Rightarrow> Proc \<Rightarrow> (JsError + string) \<times> Proc" where
  "writeToTempFile w htmlDocument sourcePath p =
     (let prefix = pathJoin w (tmpdir w) ''markdown-render-'';
          p1 = p\<lparr>effects := effects p @ [Mkdtemp prefix]\<rparr>
      in case mkdtemp w prefix of
           Inl err \<Rightarrow> (Inl err, p1)
         | Inr tempDir \<Rightarrow>
             (let b = pathBasename w sourcePath (pathExtname w sourcePath);
                  baseName = (if b = [] then ''preview'' else b);
                  outputPath = pathJoin w tempDir (baseName @ ''.html'');
                  p2 = p1\<lparr>effects := effects p1 @ [WriteFile outputPath htmlDocument]\<rparr>
              in case writeFile w outputPath htmlDocument of
                   Some err \<Rightarrow> (Inl err, p2)
                 | None \<Rightarrow> (Inr outputPath, p2)))"

subsection \<open>Arguments\<close>

definition INVALID_THEME :: string where
  \<open>INVALID_THEME = ''Invalid theme value. Use "light", "dark", or "auto".''\<close>

definition MISSING_THEME :: string where
  \<open>MISSING_THEME = ''Missing value for --theme. Expected "light" or "dark".''\<close>

definition MISSING_STYLE :: string where
  \<open>MISSING_STYLE = ''Missing value for --style. Use --list-styles to inspect options.''\<close>

definition DEFAULT_STYLE_ID :: string where
  "DEFAULT_STYLE_ID = ''geist-prose''"

definition parseTheme :: "string \<Rightarrow> string + ThemePreference" where
  \<comment> \<open>\<open>Inl\<close> is the message of the error thrown; the string returned is read as a
      \<open>ThemePreference\<close>\<close>
  "parseTheme raw =
     (let normalized = toLowerCase raw in
      if normalized = ''light'' \<or> normalized = ''dark''
      then Inr (if normalized = ''light'' then Light else Dark)
      else if normalized = ''auto'' \<or> normalized = []
      then Inr Auto
      else Inl INVALID_THEME)"

record ParsedArgs =
  positional :: "string list"
  flags :: "string set"
  theme :: ThemePreference
  showHelp :: bool
  styleId :: string
  listStyles :: bool

definition secondPart :: "string \<Rightarrow> string option" where
  \<comment> \<open>\<open>token.split('=')[1]\<close>\<close>
  "secondPart token = (case splitOn (CHR ''='') token of _ # x # _ \<Rightarrow> Some x | _ \<Rightarrow> None)"

text \<open>The loop of \<open>parseArguments\<close>: \<open>acc\<close> holds the six variables, the list is
  \<open>args\<close> from \<open>index\<close> on. \<open>!next\<close> holds of a missing and of an empty argument.\<close>

fun parseLoop :: "ParsedArgs \<Rightarrow> string list \<Rightarrow> string + ParsedArgs" where
  "parseLoop acc [] = Inr acc"
| "parseLoop acc (token # rest) =
     (if token = ''-h'' \<or> token = ''--help'' then parseLoop (acc\<lparr>showHelp := True\<rparr>) rest
      else if token = ''--no-open'' \<or> token = ''--stdout''
        then parseLoop (acc\<lparr>flags := insert token (flags acc)\<rparr>) rest
      else if token = ''--list-styles'' then parseLoop (acc\<lparr>listStyles := True\<rparr>) rest
      else if token = ''--dark'' then parseLoop (acc\<lparr>theme := Dark\<rparr>) rest
      else if token = ''--light'' then parseLoop (acc\<lparr>theme := Light\<rparr>) rest
      else if startsWith token ''--theme='' then
        (case parseTheme (case secondPart token of None \<Rightarrow> [] | Some v \<Rightarrow> v) of
           Inl msg \<Rightarrow> Inl msg
         | Inr t \<Rightarrow> parseLoop (acc\<lparr>theme := t\<rparr>) rest)
      else if token = ''--theme'' then
        (case rest of
           [] \<Rightarrow> Inl MISSING_THEME
         | next # rest' \<Rightarrow>
             if next = [] then Inl MISSING_THEME
             else (case parseTheme next of
                     Inl msg \<Rightarrow> Inl msg
                   | Inr t \<Rightarrow> parseLoop (acc\<lparr>theme := t\<rparr>) rest'))
      else if startsWith token ''--style='' then
        parseLoop
          (acc\<lparr>styleId := (case secondPart token of None \<Rightarrow> DEFAULT_STYLE_ID | Some v \<Rightarrow> v)\<rparr>)
          rest
      else if token = ''--style'' then
        (case rest of
           [] \<Rightarrow> Inl MISSING_STYLE
         | next # rest' \<Rightarrow>
             if next = [] then Inl MISSING_STYLE
             else parseLoop (acc\<lparr>styleId := next\<rparr>) rest')
      else if startsWith token ''--'' then Inl (''Unknown option: '' @ token)
      else parseLoop (acc\<lparr>positional := positional acc @ [token]\<rparr>) rest)"

definition parseArguments :: "string list \<Rightarrow> string + ParsedArgs" where
  "parseArguments args =
     parseLoop \<lparr>positional = [], flags = {}, theme = Auto, showHelp = False,
                styleId = DEFAULT_STYLE_ID, listStyles = False\<rparr> args"

subsection \<open>main\<close>

definition HELP_TEXT :: string where
  \<open>HELP_TEXT = concat [
    ''Usage: markdown-render <markdown-file> [options]\<newline>'',
    ''\<newline>'',
    ''Options:\<newline>'',
    ''  -h, --help            Show this help message and exit.\<newline>'',
    ''  --no-open             Generate the HTML file but skip launching the browser.\<newline>'',
    ''  --stdout              Print the generated HTML to standard output.\<newline>'',
    ''  --theme <mode>        Override auto detection with "light" or "dark".\<newline>'',
    ''  --style <id>          Apply a typography/background preset (default: '', DEFAULT_STYLE_ID, '').\<newline>'',
    ''  --list-styles         Print available style presets and exit.\<newline>'',
    ''  --light               Shortcut for "--theme light".\<newline>'',
    ''  --dark                Shortcut for "--theme dark".\<newline>''
  ]\<close>

definition emitError :: "string \<Rightarrow> Proc \<Rightarrow> Proc" where
  "emitError msg p = p\<lparr>stderr := stderr p @ ''Error: '' @ msg @ ''\<newline>''\<rparr>"

definition emitWarning :: "string \<Rightarrow> Proc \<Rightarrow> Proc" where
  "emitWarning msg p = p\<lparr>stderr := stderr p @ ''Warning: '' @ msg @ ''\<newline>''\<rparr>"

definition writeStdout :: "string \<Rightarrow> Proc \<Rightarrow> Proc" where
  \<comment> \<open>\<open>process.stdout.write(text)\<close>\<close>
  "writeStdout text p = p\<lparr>stdout := stdout p @ text\<rparr>"

definition EM_DASH :: string where
  \<comment> \<open>U+2014, outside the code units of the model: the three bytes that reach the stream\<close>
  "EM_DASH = [CHR 0xE2, CHR 0x80, CHR 0x94]"

definition printStyles :: "Proc \<Rightarrow> Proc" where
  "printStyles p =
     (let presets = listPresets;
          lines = map (\<lambda>preset. ''- '' @ id_preset preset @ '': '' @ label preset @ '' ''
                     @ EM_DASH @ '' '' @ description preset) presets
      in writeStdout (join ''\<newline>'' lines @ ''\<newline>'') p)"

text \<open>\<open>main\<close> returns the state it leaves and, when its promise is rejected, the error.\<close>

definition main :: "World \<Rightarrow> string list \<Rightarrow> Proc \<Rightarrow> Proc \<times> JsError option" where
  \<open>main w argv p =
     (case parseArguments argv of
        Inl msg \<Rightarrow> ((emitError msg p)\<lparr>exitCode := 1\<rparr>, None)
      | Inr parsedArgs \<Rightarrow>
          if listStyles parsedArgs then (printStyles p, None)
          else if showHelp parsedArgs then (writeStdout HELP_TEXT p, None)
          else if length (positional parsedArgs) \<noteq> 1 then
            ((writeStdout HELP_TEXT
                (emitError ''Please provide exactly one markdown file.'' p))\<lparr>exitCode := 1\<rparr>,
             None)
          else
            (case resolvePreset (styleId parsedArgs) of
               None \<Rightarrow>
                 ((emitError (''Unknown style "'' @ styleId parsedArgs
                     @ ''". Use --list-styles to see available options.'') p)\<lparr>exitCode := 1\<rparr>,
                  None)
             | Some preset \<Rightarrow>
                 (let markdownPath = pathResolve w (positional parsedArgs ! 0);
                      p1 = p\<lparr>effects := effects p @ [ReadFile markdownPath]\<rparr>
                  in case readFile w markdownPath of
                       Inl err \<Rightarrow>
                         ((emitError (''Unable to read "'' @ markdownPath @ ''". '' @ message err)
                             p1)\<lparr>exitCode := 1\<rparr>,
                          None)
                     | Inr markdownContent \<Rightarrow>
                         (let (htmlBody, mermaidDetected) = renderMarkdown w markdownContent;
                              title = deriveTitle w markdownContent markdownPath
                          in case renderHtmlDocument w title htmlBody (theme parsedArgs) preset
                                    mermaidDetected p1 of
                               (Inl err, p2) \<Rightarrow> (p2, Some err)
                             | (Inr htmlDocument, p2) \<Rightarrow>
                                 if ''--stdout'' \<in> flags parsedArgs
                                 then (writeStdout htmlDocument p2, None)
                                 else
                                   (case writeToTempFile w htmlDocument markdownPath p2 of
                                      (Inl err, p3) \<Rightarrow> (p3, Some err)
                                    | (Inr outputPath, p3) \<Rightarrow>
                                        (let p4 = writeStdout
                                               (''Generated HTML: '' @ outputPath @ ''\<newline>'') p3;
                                             shouldOpenBrowser =
                                               (''--no-open'' \<notin> flags parsedArgs
                                                \<and> \<not> env_MARKDOWN_RENDER_NO_OPEN w)
                                         in if \<not> shouldOpenBrowser then (p4, None)
                                            else
                                              (let p5 = p4\<lparr>effects := effects p4
                                                           @ [OpenBrowser outputPath]\<rparr>
                                               in case openBrowser w outputPath of
                                                    None \<Rightarrow> (p5, None)
                                                  | Some err \<Rightarrow>
                                                      (emitWarning
                                                         (''Failed to open browser. ''
                                                          @ message err) p5,
                                                       None))))))))\<close>

definition runMain :: "World \<Rightarrow> string list \<Rightarrow> Proc" where
  \<comment> \<open>the last statement of the module: \<open>main().catch(...)\<close>, from the initial state\<close>
  "runMain w argv =
     (case main w argv initialProc of
        (p, None) \<Rightarrow> p
      | (p, Some err) \<Rightarrow>
          (let p1 = emitError (''Unexpected error: '' @ message err) p;
               p2 = (if env_DEBUG w
                     then p1\<lparr>stderr := stderr p1
                               @ (case stack err of None \<Rightarrow> [] | Some s \<Rightarrow> s) @ ''\<newline>''\<rparr>
                     else p1)
           in p2\<lparr>exitCode := 1\<rparr>))"


section \<open>Vocabulary of the statements\<close>

definition css_decl :: "nat \<Rightarrow> string \<Rightarrow> string \<Rightarrow> string" where
  \<comment> \<open>one declaration line \<open>name: value;\<close> at the given indentation\<close>
  "css_decl indent name v = replicate indent (CHR '' '') @ name @ '': '' @ v @ '';\<newline>''"

fun occurrences :: "string \<Rightarrow> string \<Rightarrow> nat" where
  \<comment> \<open>the number of positions of the text at which the pattern starts\<close>
  "occurrences pat [] = (if pat = [] then 1 else 0)"
| "occurrences pat (c # cs) = (if startsWith (c # cs) pat then 1 else 0) + occurrences pat cs"

definition DARK_MEDIA_QUERY :: string where
  "DARK_MEDIA_QUERY = ''@media (prefers-color-scheme: dark)''"

definition presetCssStrings :: "ThemePreference \<Rightarrow> StylePreset \<Rightarrow> string list" where
  \<comment> \<open>the strings of the preset that \<open>buildStyles\<close> copies into the CSS\<close>
  "presetCssStrings pref p =
    (let b = (if pref = Dark then dark (palette p) else light (palette p)); d = dark (palette p) in
     [background b, foreground b, codeBackground b, codeForeground b, border b, link b, linkHover b,
      fontFamily p,
      (case headingFontFamily p of None \<Rightarrow> fontFamily p | Some h \<Rightarrow> h),
      (case monoFontFamily p of None \<Rightarrow> DEFAULT_MONO | Some m \<Rightarrow> m)]
     @ (if pref = Auto
        then [background d, foreground d, codeBackground d, codeForeground d, border d, link d,
              linkHover d]
        else [])
     @ [case extraCSS p of None \<Rightarrow> [] | Some css \<Rightarrow> css])"

definition toUpperAscii :: "char \<Rightarrow> char" where
  "toUpperAscii c =
     (let n = (of_char c :: nat) in if 97 \<le> n \<and> n \<le> 122 then char_of (n - 32) else c)"

definition isCasingOf :: "string \<Rightarrow> string \<Rightarrow> bool" where
  \<comment> \<open>\<open>s\<close> is the word (of small letters), each letter small or capital\<close>
  "isCasingOf word s = list_all2 (\<lambda>l c. c = l \<or> c = toUpperAscii l) word s"

definition quietToken :: "string \<Rightarrow> bool" where
  \<comment> \<open>an argument that is a positional or a flag without a value\<close>
  "quietToken t =
     (t = ''-h'' \<or> t = ''--help'' \<or> t = ''--no-open'' \<or> t = ''--stdout''
      \<or> t = ''--list-styles'' \<or> t = ''--dark'' \<or> t = ''--light'' \<or> \<not> startsWith t ''--'')"

fun loadMany :: "World list \<Rightarrow> Proc \<Rightarrow> (JsError + string) list \<times> Proc" where
  \<comment> \<open>one call of \<open>loadTemplate\<close> after the other, each in the world of its time\<close>
  "loadMany [] p = ([], p)"
| "loadMany (w # ws) p =
     (let (r, p1) = loadTemplate w p; (rs, p2) = loadMany ws p1 in (r # rs, p2))"

text \<open>Vocabulary for the diagram fences.\<close>

definition escapeChar :: "char \<Rightarrow> string" where
  \<open>escapeChar c =
     (if c = CHR ''&'' then ''&amp;''
      else if c = CHR ''<'' then ''&lt;''
      else if c = CHR ''>'' then ''&gt;''
      else if c = CHR 0x22 then ''&quot;''
      else if c = CHR 0x27 then ''&#39;''
      else [c])\<close>

definition withoutTrailingWhiteSpace :: "string \<Rightarrow> string" where
  \<comment> \<open>the text up to its last character that is not white space\<close>
  "withoutTrailingWhiteSpace s = rev (dropWhile isWhiteSpace (rev s))"

definition firstAt :: "string \<Rightarrow> string \<Rightarrow> string \<Rightarrow> string \<Rightarrow> bool" where
  \<comment> \<open>the first occurrence of \<open>pat\<close> in \<open>s\<close> has \<open>pre\<close> before it and \<open>post\<close> after it\<close>
  "firstAt pat s pre post =
     (s = pre @ pat @ post \<and> (\<forall>i<length pre. \<not> startsWith (drop i s) pat))"

definition hasMermaidFence :: "string \<Rightarrow> bool" where
  \<comment> \<open>an opening \<open>```mermaid\<close> with a closing \<open>```\<close> somewhere after it\<close>
  "hasMermaidFence s = (\<exists>pre mid post. s = pre @ ''```mermaid'' @ mid @ ''```'' @ post)"

text \<open>The first \<open>```\<close> of a text: the text before it and the text after it.\<close>

fun findFence :: "string \<Rightarrow> (string \<times> string) option" where
  "findFence [] = None"
| "findFence (c # cs) =
     (if startsWith (c # cs) ''```'' then Some ([], drop 3 (c # cs))
      else map_option (\<lambda>(b, a). (c # b, a)) (findFence cs))"

definition exampleDiagram :: string where
  \<open>exampleDiagram = ''a```mermaid\<newline>A<B \<newline>```b''\<close>

section \<open>Style composition: proofs\<close>

lemma buildStyles_blocks:
  "buildStyles pref P cs =
    rootBlock pref P cs @ [NL]
    @ (if pref = Auto then darkBlock Auto P @ [NL] else [])
    @ SHARED_STYLES @ [NL]
    @ typographyBlock
    @ (case extraCSS P of None \<Rightarrow> [] | Some css \<Rightarrow> if css = [] then [] else [NL] @ css)"
proof -
  have r: "rootBlock pref P cs \<noteq> []" by (simp add: rootBlock_def Let_def)
  have s: "SHARED_STYLES \<noteq> []" by (simp add: SHARED_STYLES_def)
  have t: "typographyBlock \<noteq> []" by (simp add: typographyBlock_def)
  have d: "darkBlock pref P = [] \<longleftrightarrow> pref \<noteq> Auto" by (simp add: darkBlock_def)
  show ?thesis
  proof (cases "extraCSS P")
    case None
    with r s t d show ?thesis by (cases "pref = Auto") (simp_all add: buildStyles_def)
  next
    case (Some css)
    with r s t d show ?thesis
      by (cases "pref = Auto"; cases "css = []") (simp_all add: buildStyles_def)
  qed
qed

text \<open>
  C1. Under the preference \<open>auto\<close> and for any preset \<open>P\<close>: the declared colour scheme is
  \<open>light dark\<close>; the \<open>:root\<close> block is exactly the listed declarations, the seven palette
  variables carrying the values of \<open>P\<close>'s light palette; the dark-mode media-query block
  declares the same seven variables with the values of \<open>P\<close>'s dark palette; and the composed
  CSS starts with these two blocks.
\<close>

theorem auto_theme_palettes:
  "colorSchemeFor Auto = ''light dark''
   \<and> rootBlock Auto P (colorSchemeFor Auto) = concat [
       ''    :root {\<newline>'',
       css_decl 6 ''color-scheme'' ''light dark'',
       css_decl 6 ''--bg'' (background (light (palette P))),
       css_decl 6 ''--fg'' (foreground (light (palette P))),
       css_decl 6 ''--code-bg'' (codeBackground (light (palette P))),
       css_decl 6 ''--code-fg'' (codeForeground (light (palette P))),
       css_decl 6 ''--border'' (border (light (palette P))),
       css_decl 6 ''--link'' (link (light (palette P))),
       css_decl 6 ''--link-hover'' (linkHover (light (palette P))),
       css_decl 6 ''--font-body'' (fontFamily P),
       css_decl 6 ''--font-heading''
         (case headingFontFamily P of None \<Rightarrow> fontFamily P | Some h \<Rightarrow> h),
       css_decl 6 ''--font-mono''
         (case monoFontFamily P of None \<Rightarrow> DEFAULT_MONO | Some m \<Rightarrow> m),
       ''      line-height: 1.6;\<newline>'',
       ''    }\<newline>'']
   \<and> darkBlock Auto P = concat [
       ''    '', DARK_MEDIA_QUERY, '' {\<newline>'',
       ''      :root {\<newline>'',
       css_decl 8 ''--bg'' (background (dark (palette P))),
       css_decl 8 ''--fg'' (foreground (dark (palette P))),
       css_decl 8 ''--code-bg'' (codeBackground (dark (palette P))),
       css_decl 8 ''--code-fg'' (codeForeground (dark (palette P))),
       css_decl 8 ''--border'' (border (dark (palette P))),
       css_decl 8 ''--link'' (link (dark (palette P))),
       css_decl 8 ''--link-hover'' (linkHover (dark (palette P))),
       ''      }\<newline>'',
       ''    }\<newline>'']
   \<and> (\<exists>rest. buildStyles Auto P (colorSchemeFor Auto) =
         rootBlock Auto P (colorSchemeFor Auto) @ [NL] @ darkBlock Auto P @ [NL] @ rest)"
proof (intro conjI)
  show "colorSchemeFor Auto = ''light dark''"
    by (simp add: colorSchemeFor_def)
  show "rootBlock Auto P (colorSchemeFor Auto) = concat [
       ''    :root {\<newline>'',
       css_decl 6 ''color-scheme'' ''light dark'',
       css_decl 6 ''--bg'' (background (light (palette P))),
       css_decl 6 ''--fg'' (foreground (light (palette P))),
       css_decl 6 ''--code-bg'' (codeBackground (light (palette P))),
       css_decl 6 ''--code-fg'' (codeForeground (light (palette P))),
       css_decl 6 ''--border'' (border (light (palette P))),
       css_decl 6 ''--link'' (link (light (palette P))),
       css_decl 6 ''--link-hover'' (linkHover (light (palette P))),
       css_decl 6 ''--font-body'' (fontFamily P),
       css_decl 6 ''--font-heading''
         (case headingFontFamily P of None \<Rightarrow> fontFamily P | Some h \<Rightarrow> h),
       css_decl 6 ''--font-mono''
         (case monoFontFamily P of None \<Rightarrow> DEFAULT_MONO | Some m \<Rightarrow> m),
       ''      line-height: 1.6;\<newline>'',
       ''    }\<newline>'']"
    by (simp add: rootBlock_def colorSchemeFor_def css_decl_def Let_def eval_nat_numeral)
  show "darkBlock Auto P = concat [
       ''    '', DARK_MEDIA_QUERY, '' {\<newline>'',
       ''      :root {\<newline>'',
       css_decl 8 ''--bg'' (background (dark (palette P))),
       css_decl 8 ''--fg'' (foreground (dark (palette P))),
       css_decl 8 ''--code-bg'' (codeBackground (dark (palette P))),
       css_decl 8 ''--code-fg'' (codeForeground (dark (palette P))),
       css_decl 8 ''--border'' (border (dark (palette P))),
       css_decl 8 ''--link'' (link (dark (palette P))),
       css_decl 8 ''--link-hover'' (linkHover (dark (palette P))),
       ''      }\<newline>'',
       ''    }\<newline>'']"
    by (simp add: darkBlock_def DARK_MEDIA_QUERY_def css_decl_def eval_nat_numeral)
  show "\<exists>rest. buildStyles Auto P (colorSchemeFor Auto) =
         rootBlock Auto P (colorSchemeFor Auto) @ [NL] @ darkBlock Auto P @ [NL] @ rest"
    unfolding buildStyles_blocks by simp
qed

lemma occurrences_le_count:
  "pat \<noteq> [] \<Longrightarrow> occurrences pat s \<le> count_list s (hd pat)"
  by (induction s) (auto simp: startsWith_def neq_Nil_conv)

lemma occurrences_append_ge: "occurrences pat s \<le> occurrences pat (xs @ s)"
  by (induction xs) auto

lemma occurrences_prefix_pos: "pat \<noteq> [] \<Longrightarrow> 1 \<le> occurrences pat (pat @ ys)"
  by (cases pat) (auto simp: startsWith_def)

lemma occurrences_infix_pos: "pat \<noteq> [] \<Longrightarrow> 1 \<le> occurrences pat (xs @ pat @ ys)"
  using occurrences_prefix_pos[of pat ys] occurrences_append_ge[of pat "pat @ ys" xs]
  by linarith

lemma last_concat_lines:
  "xss \<noteq> [] \<Longrightarrow> last xss \<noteq> [] \<Longrightarrow> last (concat xss) = last (last xss)"
  by (induction xss) (auto simp: last_append)

lemma count_list_concat:
  "count_list (concat xss) x = sum_list (map (\<lambda>xs. count_list xs x) xss)"
  by (induction xss) simp_all

lemma at_shared: "count_list SHARED_STYLES (CHR ''@'') = 0"
  unfolding SHARED_STYLES_def count_list_concat by simp

lemma at_typography: "count_list typographyBlock (CHR ''@'') = 0"
  unfolding typographyBlock_def count_list_concat by simp

lemma at_colorScheme: "count_list (colorSchemeFor pref) (CHR ''@'') = 0"
  by (cases pref) (simp_all add: colorSchemeFor_def)

text \<open>The only \<open>@\<close> that \<open>buildStyles\<close> writes by itself is the one of the media query.\<close>

lemma at_buildStyles:
  "count_list (buildStyles pref P (colorSchemeFor pref)) (CHR ''@'') =
     (if pref = Auto then 1 else 0)
     + sum_list (map (\<lambda>s. count_list s (CHR ''@'')) (presetCssStrings pref P))"
proof -
  have r: "count_list (rootBlock pref P (colorSchemeFor pref)) (CHR ''@'')
      = sum_list (map (\<lambda>s. count_list s (CHR ''@''))
          (let b = (if pref = Dark then dark (palette P) else light (palette P)) in
            [background b, foreground b, codeBackground b, codeForeground b, border b, link b,
             linkHover b, fontFamily P,
             (case headingFontFamily P of None \<Rightarrow> fontFamily P | Some h \<Rightarrow> h),
             (case monoFontFamily P of None \<Rightarrow> DEFAULT_MONO | Some m \<Rightarrow> m)]))"
    unfolding rootBlock_def Let_def count_list_concat by (simp add: at_colorScheme)
  have d: "count_list (darkBlock Auto P) (CHR ''@'')
      = 1 + sum_list (map (\<lambda>s. count_list s (CHR ''@''))
          (let d = dark (palette P) in
            [background d, foreground d, codeBackground d, codeForeground d, border d, link d,
             linkHover d]))"
    unfolding darkBlock_def Let_def count_list_concat by simp
  have e: "count_list (case extraCSS P of None \<Rightarrow> []
              | Some css \<Rightarrow> if css = [] then [] else [NL] @ css) (CHR ''@'')
      = count_list (case extraCSS P of None \<Rightarrow> [] | Some css \<Rightarrow> css) (CHR ''@'')"
    by (simp add: NL_def split: option.splits)
  show ?thesis
    unfolding buildStyles_blocks
    by (simp add: r d e at_shared at_typography presetCssStrings_def Let_def NL_def)
qed

lemma darkBlock_has_query:
  "darkBlock Auto P =
     ''    '' @ DARK_MEDIA_QUERY @ drop (4 + length DARK_MEDIA_QUERY) (darkBlock Auto P)"
  by (simp add: darkBlock_def DARK_MEDIA_QUERY_def)

lemma geist_fields:
  "count_list (fontFamily geist_prose) (CHR ''@'') = 0"
  "count_list (case headingFontFamily geist_prose of None \<Rightarrow> fontFamily geist_prose
      | Some h \<Rightarrow> h) (CHR ''@'') = 0"
  "count_list (case monoFontFamily geist_prose of None \<Rightarrow> DEFAULT_MONO
      | Some m \<Rightarrow> m) (CHR ''@'') = 0"
  "count_list (case extraCSS geist_prose of None \<Rightarrow> [] | Some css \<Rightarrow> css) (CHR ''@'') = 0"
  "sum_list (map (\<lambda>s. count_list s (CHR ''@'')) (let b = light (palette geist_prose) in
     [background b, foreground b, codeBackground b, codeForeground b, border b, link b,
      linkHover b])) = 0"
  "sum_list (map (\<lambda>s. count_list s (CHR ''@'')) (let b = dark (palette geist_prose) in
     [background b, foreground b, codeBackground b, codeForeground b, border b, link b,
      linkHover b])) = 0"
  by (simp_all add: geist_prose_def count_list_concat)

lemma inter_fields:
  "count_list (fontFamily inter_ui) (CHR ''@'') = 0"
  "count_list (case headingFontFamily inter_ui of None \<Rightarrow> fontFamily inter_ui
      | Some h \<Rightarrow> h) (CHR ''@'') = 0"
  "count_list (case monoFontFamily inter_ui of None \<Rightarrow> DEFAULT_MONO
      | Some m \<Rightarrow> m) (CHR ''@'') = 0"
  "count_list (case extraCSS inter_ui of None \<Rightarrow> [] | Some css \<Rightarrow> css) (CHR ''@'') = 0"
  "sum_list (map (\<lambda>s. count_list s (CHR ''@'')) (let b = light (palette inter_ui) in
     [background b, foreground b, codeBackground b, codeForeground b, border b, link b,
      linkHover b])) = 0"
  "sum_list (map (\<lambda>s. count_list s (CHR ''@'')) (let b = dark (palette inter_ui) in
     [background b, foreground b, codeBackground b, codeForeground b, border b, link b,
      linkHover b])) = 0"
  by (simp_all add: inter_ui_def count_list_concat)

lemma registered_no_at:
  assumes "p \<in> set PRESETS"
  shows "sum_list (map (\<lambda>s. count_list s (CHR ''@'')) (presetCssStrings pref p)) = 0"
proof -
  from assms consider "p = geist_prose" | "p = inter_ui"
    by (auto simp: PRESETS_def)
  then show ?thesis
  proof cases
    case 1
    show ?thesis using geist_fields unfolding 1 presetCssStrings_def Let_def
      by (cases pref) simp_all
  next
    case 2
    show ?thesis using inter_fields unfolding 2 presetCssStrings_def Let_def
      by (cases pref) simp_all
  qed
qed

lemma query_count:
  assumes "sum_list (map (\<lambda>s. count_list s (CHR ''@'')) (presetCssStrings pref P)) = 0"
  shows "occurrences DARK_MEDIA_QUERY (buildStyles pref P (colorSchemeFor pref))
       = (if pref = Auto then 1 else 0)"
proof -
  let ?css = "buildStyles pref P (colorSchemeFor pref)"
  have ne: "DARK_MEDIA_QUERY \<noteq> []" and h: "hd DARK_MEDIA_QUERY = CHR ''@''"
    by (simp_all add: DARK_MEDIA_QUERY_def)
  have up: "occurrences DARK_MEDIA_QUERY ?css \<le> (if pref = Auto then 1 else 0)"
    using occurrences_le_count[OF ne, of ?css]
    by (simp add: h at_buildStyles assms)
  show ?thesis
  proof (cases "pref = Auto")
    case False
    with up show ?thesis by simp
  next
    case True
    have "?css = (rootBlock pref P (colorSchemeFor pref) @ [NL] @ ''    '')
        @ DARK_MEDIA_QUERY
        @ (drop (4 + length DARK_MEDIA_QUERY) (darkBlock Auto P) @ [NL] @ SHARED_STYLES @ [NL]
           @ typographyBlock
           @ (case extraCSS P of None \<Rightarrow> []
              | Some css \<Rightarrow> if css = [] then [] else [NL] @ css))"
      unfolding buildStyles_blocks using True
      by (subst darkBlock_has_query) simp
    then obtain xs ys where "?css = xs @ DARK_MEDIA_QUERY @ ys"
      by blast
    then have "1 \<le> occurrences DARK_MEDIA_QUERY ?css"
      using occurrences_infix_pos[OF ne, of xs ys] by simp
    with up True show ?thesis by simp
  qed
qed

lemma no_at_sum:
  "list_all (\<lambda>s. CHR ''@'' \<notin> set s) xs \<Longrightarrow>
     sum_list (map (\<lambda>s. count_list s (CHR ''@'')) xs) = 0"
  by (induction xs) (simp_all add: count_list_0_iff)

text \<open>
  C2. For every preset of the catalog and every theme preference, the composed CSS holds
  the dark-mode media query \<open>@media (prefers-color-scheme: dark)\<close> exactly once when the
  preference is \<open>auto\<close> and not at all when it is \<open>light\<close> or \<open>dark\<close>. The same holds of
  any other preset, provided none of its strings that go into the CSS holds an \<open>@\<close>, that
  is, provided the preset brings no at-rule of its own.
\<close>

theorem dark_media_query_count:
  "(\<forall>p\<in>set PRESETS. \<forall>pref.
      occurrences DARK_MEDIA_QUERY (buildStyles pref p (colorSchemeFor pref))
        = (if pref = Auto then 1 else 0))
   \<and> (list_all (\<lambda>s. CHR ''@'' \<notin> set s) (presetCssStrings pref P) \<longrightarrow>
        occurrences DARK_MEDIA_QUERY (buildStyles pref P (colorSchemeFor pref))
          = (if pref = Auto then 1 else 0))"
  using query_count registered_no_at no_at_sum by blast

theorem dark_media_query_count_witness:
  "geist_prose \<in> set PRESETS
   \<and> occurrences DARK_MEDIA_QUERY (buildStyles Auto geist_prose (colorSchemeFor Auto)) = 1
   \<and> occurrences DARK_MEDIA_QUERY (buildStyles Light geist_prose (colorSchemeFor Light)) = 0
   \<and> occurrences DARK_MEDIA_QUERY (buildStyles Dark geist_prose (colorSchemeFor Dark)) = 0
   \<and> list_all (\<lambda>s. CHR ''@'' \<notin> set s)
        (presetCssStrings Auto (inter_ui\<lparr>extraCSS := None, monoFontFamily := None\<rparr>))
   \<and> occurrences DARK_MEDIA_QUERY
        (buildStyles Auto (inter_ui\<lparr>extraCSS := None, monoFontFamily := None\<rparr>)
           (colorSchemeFor Auto)) = 1"
proof -
  have m: "geist_prose \<in> set PRESETS" by (simp add: PRESETS_def)
  have n: "list_all (\<lambda>s. CHR ''@'' \<notin> set s)
        (presetCssStrings Auto (inter_ui\<lparr>extraCSS := None, monoFontFamily := None\<rparr>))"
    by (simp add: presetCssStrings_def inter_ui_def DEFAULT_MONO_def)
  note t = dark_media_query_count[of Auto "inter_ui\<lparr>extraCSS := None, monoFontFamily := None\<rparr>"]
  from t m
  have "\<forall>pref. occurrences DARK_MEDIA_QUERY (buildStyles pref geist_prose (colorSchemeFor pref))
       = (if pref = Auto then 1 else 0)"
    by blast
  from this[rule_format, of Auto] this[rule_format, of Light] this[rule_format, of Dark] m n t
  show ?thesis by simp
qed

text \<open>
  C3. For every theme preference and preset, the composed CSS is the \<open>:root\<close> block, the
  dark-mode block (only under \<open>auto\<close>), the shared layout rules, the typography rules and
  the preset's \<open>extraCSS\<close> (when present and not empty), in this order, with one newline
  between two blocks; every generated block ends with a newline, so the separator shows as a
  blank line; the dark-mode block is empty exactly when the preference is not \<open>auto\<close>, and
  an empty block leaves no trace in the result.
\<close>

theorem buildStyles_composition:
  "buildStyles pref P cs =
      rootBlock pref P cs @ [NL]
      @ (if pref = Auto then darkBlock pref P @ [NL] else [])
      @ SHARED_STYLES @ [NL]
      @ typographyBlock
      @ (case extraCSS P of None \<Rightarrow> [] | Some css \<Rightarrow> if css = [] then [] else [NL] @ css)
   \<and> (darkBlock pref P = [] \<longleftrightarrow> pref \<noteq> Auto)
   \<and> last (rootBlock pref P cs) = NL
   \<and> last (darkBlock Auto P) = NL
   \<and> last SHARED_STYLES = NL
   \<and> last typographyBlock = NL"
proof (intro conjI)
  show "buildStyles pref P cs =
      rootBlock pref P cs @ [NL]
      @ (if pref = Auto then darkBlock pref P @ [NL] else [])
      @ SHARED_STYLES @ [NL]
      @ typographyBlock
      @ (case extraCSS P of None \<Rightarrow> [] | Some css \<Rightarrow> if css = [] then [] else [NL] @ css)"
    by (cases "pref = Auto") (simp_all only: buildStyles_blocks if_True if_False)
  show "darkBlock pref P = [] \<longleftrightarrow> pref \<noteq> Auto"
    by (simp add: darkBlock_def)
  show "last (rootBlock pref P cs) = NL"
    unfolding rootBlock_def Let_def by (subst last_concat_lines) (simp_all add: NL_def)
  show "last (darkBlock Auto P) = NL"
    unfolding darkBlock_def by (simp add: NL_def)
  show "last SHARED_STYLES = NL"
    unfolding SHARED_STYLES_def by (subst last_concat_lines) (simp_all add: NL_def)
  show "last typographyBlock = NL"
    unfolding typographyBlock_def by (subst last_concat_lines) (simp_all add: NL_def)
qed

section \<open>Preset lookup: proofs\<close>

lemma preset_ids:
  "id_preset geist_prose = ''geist-prose''" "id_preset inter_ui = ''inter-ui''"
  by (simp_all add: geist_prose_def inter_ui_def)

text \<open>
  C4. \<open>resolvePreset\<close> returns a registered preset with exactly the given id: for every
  registered preset \<open>p\<close>, \<open>resolvePreset (id p)\<close> is \<open>p\<close>; for a string that is the id of no
  registered preset the result is absence. The function is total: it raises nothing.
\<close>

theorem resolvePreset_catalog:
  "(\<forall>p\<in>set PRESETS. resolvePreset (id_preset p) = Some p)
   \<and> (\<forall>s. s \<notin> id_preset ` set PRESETS \<longrightarrow> resolvePreset s = None)
   \<and> (\<forall>s p. resolvePreset s = Some p \<longrightarrow> p \<in> set PRESETS \<and> id_preset p = s)"
  unfolding PRESETS_def resolvePreset_def
  by (auto simp add: preset_ids split: if_splits)

theorem resolvePreset_catalog_witness:
  "inter_ui \<in> set PRESETS \<and> resolvePreset ''inter-ui'' = Some inter_ui
   \<and> ''Inter-UI'' \<notin> id_preset ` set PRESETS \<and> resolvePreset ''Inter-UI'' = None"
proof -
  have m: "inter_ui \<in> set PRESETS" by (simp add: PRESETS_def)
  have n: "''Inter-UI'' \<notin> id_preset ` set PRESETS" by (simp add: PRESETS_def preset_ids)
  from resolvePreset_catalog m have "resolvePreset (id_preset inter_ui) = Some inter_ui"
    by blast
  moreover from resolvePreset_catalog n have "resolvePreset ''Inter-UI'' = None"
    by blast
  ultimately show ?thesis using m n by (simp add: preset_ids)
qed

section \<open>Arguments and the process: proofs\<close>

lemma of_char_less_256: "(of_char c :: nat) < 256"
  using of_char_mod_256[of c, where ?'a = nat]
  by (metis mod_less_divisor zero_less_numeral)

lemma char_of_eq_small:
  assumes "n < 256"
  shows "char_of (n::nat) = d \<longleftrightarrow> n = of_char d"
  using assms by (auto simp: char_of_eq_iff take_bit_eq_mod)

lemma toLowerCaseChar_small_letter:
  assumes "97 \<le> (of_char d :: nat)" "(of_char d :: nat) \<le> 122"
  shows "toLowerCaseChar c = d \<longleftrightarrow> c = d \<or> c = toUpperAscii d"
proof -
  have c: "(of_char c :: nat) < 256" by (rule of_char_less_256)
  have eq: "c = d \<longleftrightarrow> (of_char c :: nat) = of_char d" by simp
  have up: "toUpperAscii d = char_of ((of_char d :: nat) - 32)"
    using assms by (simp add: toUpperAscii_def)
  have eq2: "c = toUpperAscii d \<longleftrightarrow> (of_char c :: nat) = of_char d - 32"
    unfolding up using assms
    by (metis char_of_eq_small[of "of_char d - 32" c] less_imp_diff_less of_char_less_256)
  show ?thesis
    unfolding eq eq2 toLowerCaseChar_def Let_def
    using c assms by (auto simp: char_of_eq_small)
qed

lemma toLowerCase_eq_word:
  assumes "\<forall>d\<in>set word. 97 \<le> (of_char d :: nat) \<and> (of_char d :: nat) \<le> 122"
  shows "toLowerCase s = word \<longleftrightarrow> isCasingOf word s"
  using assms
proof (induction word arbitrary: s)
  case Nil
  then show ?case by (simp add: toLowerCase_def isCasingOf_def)
next
  case (Cons d word)
  then show ?case
    by (cases s) (auto simp: toLowerCase_def isCasingOf_def toLowerCaseChar_small_letter)
qed

lemma lower_light: "toLowerCase s = ''light'' \<longleftrightarrow> isCasingOf ''light'' s"
  by (rule toLowerCase_eq_word) simp

lemma lower_dark: "toLowerCase s = ''dark'' \<longleftrightarrow> isCasingOf ''dark'' s"
  by (rule toLowerCase_eq_word) simp

lemma lower_auto: "toLowerCase s = ''auto'' \<longleftrightarrow> isCasingOf ''auto'' s"
  by (rule toLowerCase_eq_word) simp

lemma lower_empty: "toLowerCase s = [] \<longleftrightarrow> s = []"
  by (simp add: toLowerCase_def)

lemma toLowerCase_idem: "toLowerCase (toLowerCase s) = toLowerCase s"
proof -
  have "toLowerCaseChar (toLowerCaseChar c) = toLowerCaseChar c" for c
    using of_char_less_256[of c]
    by (auto simp: toLowerCaseChar_def Let_def)
  then show ?thesis by (simp add: toLowerCase_def)
qed

lemma parseTheme_by_casing:
  "parseTheme raw =
     (if isCasingOf ''light'' raw then Inr Light
      else if isCasingOf ''dark'' raw then Inr Dark
      else if isCasingOf ''auto'' raw \<or> raw = [] then Inr Auto
      else Inl INVALID_THEME)"
  unfolding parseTheme_def Let_def lower_light lower_dark lower_auto lower_empty by simp

text \<open>
  C9. \<open>parseTheme\<close> decides on the lowercased input (so it gives the same on the input and
  on its lowercasing): it returns \<open>light\<close>, \<open>dark\<close> for every letter-casing of these words,
  \<open>auto\<close> for every letter-casing of \<open>auto\<close> and for the empty string, and throws the
  invalid-theme error for every other string. The argument \<open>--theme=\<close>, whose value is
  empty, sets the preference \<open>auto\<close> and the loop goes on.
\<close>

theorem parseTheme_letter_casing:
  "parseTheme raw =
     (if isCasingOf ''light'' raw then Inr Light
      else if isCasingOf ''dark'' raw then Inr Dark
      else if isCasingOf ''auto'' raw \<or> raw = [] then Inr Auto
      else Inl INVALID_THEME)
   \<and> parseTheme raw = parseTheme (toLowerCase raw)
   \<and> parseLoop acc (''--theme='' # rest) = parseLoop (acc\<lparr>theme := Auto\<rparr>) rest"
proof (intro conjI)
  show "parseTheme raw =
     (if isCasingOf ''light'' raw then Inr Light
      else if isCasingOf ''dark'' raw then Inr Dark
      else if isCasingOf ''auto'' raw \<or> raw = [] then Inr Auto
      else Inl INVALID_THEME)"
    by (rule parseTheme_by_casing)
  show "parseTheme raw = parseTheme (toLowerCase raw)"
    unfolding parseTheme_def Let_def toLowerCase_idem ..
  show "parseLoop acc (''--theme='' # rest) = parseLoop (acc\<lparr>theme := Auto\<rparr>) rest"
    by (simp add: startsWith_def secondPart_def parseTheme_def toLowerCase_def)
qed

lemma quiet_step:
  assumes "quietToken t"
  shows "\<exists>acc'. parseLoop acc (t # rest) = parseLoop acc' rest"
proof (cases "startsWith t ''--''")
  case False
  then have "\<not> startsWith t ''--theme=''" "\<not> startsWith t ''--style=''"
    "t \<noteq> ''--help''" "t \<noteq> ''--no-open''" "t \<noteq> ''--stdout''" "t \<noteq> ''--list-styles''"
    "t \<noteq> ''--dark''" "t \<noteq> ''--light''" "t \<noteq> ''--theme''" "t \<noteq> ''--style''"
    by (auto simp: startsWith_def dest: arg_cong[where f = "take 2"])
  with False show ?thesis
    by (cases "t = ''-h''") (simp_all, blast+)
next
  case True
  with assms have "t = ''-h'' \<or> t = ''--help'' \<or> t = ''--no-open'' \<or> t = ''--stdout''
      \<or> t = ''--list-styles'' \<or> t = ''--dark'' \<or> t = ''--light''"
    unfolding quietToken_def by simp
  then show ?thesis
    by (elim disjE) (simp_all add: startsWith_def, blast+)
qed

lemma quiet_prefix:
  "\<forall>t\<in>set pre. quietToken t \<Longrightarrow> \<exists>acc'. parseLoop acc (pre @ rest) = parseLoop acc' rest"
proof (induction pre arbitrary: acc)
  case Nil
  then show ?case by auto
next
  case (Cons t pre)
  from Cons.prems have "quietToken t" by simp
  from quiet_step[OF this, of acc "pre @ rest"] obtain a1 where
    "parseLoop acc (t # pre @ rest) = parseLoop a1 (pre @ rest)" by blast
  moreover from Cons.IH[of a1] Cons.prems obtain a2 where
    "parseLoop a1 (pre @ rest) = parseLoop a2 rest" by auto
  ultimately show ?case by auto
qed

lemma theme_invalid_step:
  assumes "parseTheme v = Inl INVALID_THEME"
  shows "parseLoop acc (''--theme'' # v # rest) = Inl INVALID_THEME"
proof -
  from assms have "v \<noteq> []" by (auto simp: parseTheme_def toLowerCase_def)
  with assms show ?thesis by (simp add: startsWith_def)
qed

lemma splitOn_no_sep: "sep \<notin> set v \<Longrightarrow> splitOn sep v = [v]"
  by (induction v) auto

lemma theme_eq_invalid_step:
  assumes "parseTheme v = Inl INVALID_THEME" "CHR ''='' \<notin> set v"
  shows "parseLoop acc ((''--theme='' @ v) # rest) = Inl INVALID_THEME"
  using assms(1) splitOn_no_sep[OF assms(2)]
  by (simp add: startsWith_def secondPart_def)

lemma runMain_parse_error:
  assumes "parseArguments argv = Inl msg"
  shows "runMain w argv = initialProc\<lparr>exitCode := 1, stderr := ''Error: '' @ msg @ ''\<newline>''\<rparr>"
  using assms by (simp add: runMain_def main_def emitError_def initialProc_def)

lemma sublist_mid: "sublist ys (xs @ ys @ zs)"
  unfolding sublist_def by blast

text \<open>
  C7. Let the arguments hold \<open>--theme v\<close> (or \<open>--theme=v\<close>, \<open>v\<close> without \<open>=\<close>) after
  positionals and flags without a value only, where \<open>v\<close> is not empty and is no letter-casing
  of \<open>light\<close>, \<open>dark\<close> or \<open>auto\<close>. Then the process ends with exit code 1, its error stream is
  the line \<open>Error: Invalid theme value. ...\<close>, nothing is written to the standard output and
  no external call is made: no file is read or written.
\<close>

theorem invalid_theme_fatal:
  assumes "\<forall>t\<in>set pre. quietToken t"
    and "v \<noteq> []"
    and "\<not> isCasingOf ''light'' v" and "\<not> isCasingOf ''dark'' v" and "\<not> isCasingOf ''auto'' v"
    and "argv = pre @ ''--theme'' # v # rest
         \<or> (CHR ''='' \<notin> set v \<and> argv = pre @ (''--theme='' @ v) # rest)"
  shows "exitCode (runMain w argv) = 1
    \<and> stderr (runMain w argv) = ''Error: '' @ INVALID_THEME @ ''\<newline>''
    \<and> sublist ''Invalid theme value'' (stderr (runMain w argv))
    \<and> stdout (runMain w argv) = []
    \<and> effects (runMain w argv) = []"
proof -
  from assms(2-5) have inv: "parseTheme v = Inl INVALID_THEME"
    by (simp add: parseTheme_by_casing)
  have "parseArguments argv = Inl INVALID_THEME"
    using assms(6)
  proof
    assume "argv = pre @ ''--theme'' # v # rest"
    then show ?thesis
      unfolding parseArguments_def
      using quiet_prefix[OF assms(1)] theme_invalid_step[OF inv] by metis
  next
    assume "CHR ''='' \<notin> set v \<and> argv = pre @ (''--theme='' @ v) # rest"
    then show ?thesis
      unfolding parseArguments_def
      using quiet_prefix[OF assms(1)] theme_eq_invalid_step[OF inv] by metis
  qed
  from runMain_parse_error[OF this, of w]
  have r: "runMain w argv =
     initialProc\<lparr>exitCode := 1, stderr := ''Error: '' @ INVALID_THEME @ ''\<newline>''\<rparr>" .
  have "sublist ''Invalid theme value'' (''Error: '' @ ''Invalid theme value'' @
      drop 19 INVALID_THEME @ ''\<newline>'')"
    by (rule sublist_mid)
  then have "sublist ''Invalid theme value'' (''Error: '' @ INVALID_THEME @ ''\<newline>'')"
    by (simp add: INVALID_THEME_def)
  then show ?thesis unfolding r by (simp add: initialProc_def)
qed

theorem invalid_theme_fatal_witness:
  "quietToken ''notes.md'' \<and> ''sideways'' \<noteq> []
   \<and> \<not> isCasingOf ''light'' ''sideways'' \<and> \<not> isCasingOf ''dark'' ''sideways''
   \<and> \<not> isCasingOf ''auto'' ''sideways''
   \<and> (\<forall>w. exitCode (runMain w [''notes.md'', ''--theme'', ''sideways'', ''--stdout'']) = 1
        \<and> stderr (runMain w [''notes.md'', ''--theme'', ''sideways'', ''--stdout''])
            = ''Error: '' @ INVALID_THEME @ ''\<newline>''
        \<and> stdout (runMain w [''notes.md'', ''--theme'', ''sideways'', ''--stdout'']) = []
        \<and> effects (runMain w [''notes.md'', ''--theme'', ''sideways'', ''--stdout'']) = [])"
proof -
  have q: "\<forall>t\<in>set [''notes.md'']. quietToken t"
    by (simp add: quietToken_def startsWith_def)
  have l: "\<not> isCasingOf ''light'' ''sideways''" "\<not> isCasingOf ''dark'' ''sideways''"
    "\<not> isCasingOf ''auto'' ''sideways''"
    by (simp_all add: isCasingOf_def toUpperAscii_def)
  have a: "[''notes.md'', ''--theme'', ''sideways'', ''--stdout'']
      = [''notes.md''] @ ''--theme'' # ''sideways'' # [''--stdout'']
     \<or> (CHR ''='' \<notin> set ''sideways''
        \<and> [''notes.md'', ''--theme'', ''sideways'', ''--stdout'']
           = [''notes.md''] @ (''--theme='' @ ''sideways'') # [''--stdout''])"
    by simp
  have n: "''sideways'' \<noteq> []" by simp
  from invalid_theme_fatal[OF q n l a] q l show ?thesis by simp
qed

text \<open>
  C6. Let the arguments parse without error into a request whose style id no registered
  preset has. Then the process makes no external call: no file is read, no template
  loaded, so no document is composed. If moreover the request asks neither for the help
  text nor for the list of styles (both are served before the style is looked up) and names
  one file, the process ends with exit code 1, its error stream is the line
  \<open>Error: Unknown style "id". Use --list-styles to see available options.\<close> and nothing is
  written to the standard output.
\<close>

theorem unknown_style_fatal:
  assumes "parseArguments argv = Inr pa"
    and "resolvePreset (styleId pa) = None"
  shows "effects (runMain w argv) = []
    \<and> (\<not> listStyles pa \<and> \<not> showHelp pa \<and> length (positional pa) = 1 \<longrightarrow>
         exitCode (runMain w argv) = 1
         \<and> stderr (runMain w argv) = ''Error: Unknown style '' @ [CHR 0x22] @ styleId pa
              @ [CHR 0x22] @ ''. Use --list-styles to see available options.'' @ ''\<newline>''
         \<and> sublist ''--list-styles'' (stderr (runMain w argv))
         \<and> stdout (runMain w argv) = [])"
proof (intro conjI impI)
  show "effects (runMain w argv) = []"
    using assms
    by (simp add: runMain_def main_def emitError_def printStyles_def writeStdout_def
        initialProc_def Let_def)
next
  assume h: "\<not> listStyles pa \<and> \<not> showHelp pa \<and> length (positional pa) = 1"
  have r: "runMain w argv = initialProc\<lparr>exitCode := 1,
      stderr := ''Error: Unknown style '' @ [CHR 0x22] @ styleId pa @ [CHR 0x22]
          @ ''. Use --list-styles to see available options.'' @ ''\<newline>''\<rparr>"
    using assms h by (simp add: runMain_def main_def emitError_def initialProc_def)
  have s: "sublist ''--list-styles''
     ((''Error: Unknown style '' @ [CHR 0x22] @ styleId pa @ [CHR 0x22] @ ''. Use '')
      @ ''--list-styles'' @ '' to see available options.'' @ ''\<newline>'')"
    by (rule sublist_mid)
  show "exitCode (runMain w argv) = 1" unfolding r by simp
  show "stderr (runMain w argv) = ''Error: Unknown style '' @ [CHR 0x22] @ styleId pa
              @ [CHR 0x22] @ ''. Use --list-styles to see available options.'' @ ''\<newline>''"
    unfolding r by simp
  show "sublist ''--list-styles'' (stderr (runMain w argv))" unfolding r using s by simp
  show "stdout (runMain w argv) = []" unfolding r by (simp add: initialProc_def)
qed

theorem unknown_style_fatal_witness:
  "parseArguments [''--style'', ''unknown-id'', ''notes.md'']
     = Inr \<lparr>positional = [''notes.md''], flags = {}, theme = Auto, showHelp = False,
            styleId = ''unknown-id'', listStyles = False\<rparr>
   \<and> resolvePreset ''unknown-id'' = None
   \<and> (\<forall>w. exitCode (runMain w [''--style'', ''unknown-id'', ''notes.md'']) = 1
        \<and> stderr (runMain w [''--style'', ''unknown-id'', ''notes.md''])
            = ''Error: Unknown style '' @ [CHR 0x22] @ ''unknown-id'' @ [CHR 0x22]
              @ ''. Use --list-styles to see available options.'' @ ''\<newline>''
        \<and> stdout (runMain w [''--style'', ''unknown-id'', ''notes.md'']) = []
        \<and> effects (runMain w [''--style'', ''unknown-id'', ''notes.md'']) = [])"
proof -
  let ?pa = "\<lparr>positional = [''notes.md''], flags = {}, theme = Auto, showHelp = False,
            styleId = ''unknown-id'', listStyles = False\<rparr>"
  have p: "parseArguments [''--style'', ''unknown-id'', ''notes.md''] = Inr ?pa"
    by (simp add: parseArguments_def startsWith_def)
  have u: "resolvePreset (styleId ?pa) = None"
    by (simp add: resolvePreset_def PRESETS_def preset_ids)
  have h: "\<not> listStyles ?pa \<and> \<not> showHelp ?pa \<and> length (positional ?pa) = 1"
    by simp
  from unknown_style_fatal[OF p u] h p u show ?thesis by simp
qed

text \<open>
  C8. From a state with an empty cache, any number of calls of \<open>loadTemplate\<close>, each in
  the world of its time, read the template file once, in the first call, and all return the
  outcome of that read, which stays in the cache. Whatever else the state holds, a call that
  finds an outcome in the cache returns it and changes nothing, whatever the file holds by
  then.
\<close>

theorem loadTemplate_cached:
  "(templateCache p = None \<longrightarrow>
      loadMany (w # ws) p =
        (replicate (Suc (length ws)) (readFile w (TEMPLATE_PATH w)),
         p\<lparr>templateCache := Some (readFile w (TEMPLATE_PATH w)),
           effects := effects p @ [ReadFile (TEMPLATE_PATH w)]\<rparr>))
   \<and> (templateCache q = Some r \<longrightarrow> loadTemplate w' q = (r, q))"
proof (intro conjI impI)
  have many: "templateCache s = Some x \<Longrightarrow> loadMany vs s = (replicate (length vs) x, s)"
    for s x vs
    by (induction vs) (simp_all add: loadTemplate_def)
  assume "templateCache p = None"
  then show "loadMany (w # ws) p =
        (replicate (Suc (length ws)) (readFile w (TEMPLATE_PATH w)),
         p\<lparr>templateCache := Some (readFile w (TEMPLATE_PATH w)),
           effects := effects p @ [ReadFile (TEMPLATE_PATH w)]\<rparr>)"
    by (simp add: loadTemplate_def Let_def many)
next
  assume "templateCache q = Some r"
  then show "loadTemplate w' q = (r, q)" by (simp add: loadTemplate_def)
qed

theorem loadTemplate_cached_witness:
  "templateCache initialProc = None
   \<and> (\<forall>w v. loadMany [w, v, v] initialProc =
        ([readFile w (TEMPLATE_PATH w), readFile w (TEMPLATE_PATH w),
          readFile w (TEMPLATE_PATH w)],
         initialProc\<lparr>templateCache := Some (readFile w (TEMPLATE_PATH w)),
           effects := [ReadFile (TEMPLATE_PATH w)]\<rparr>))
   \<and> (\<forall>v. loadTemplate v (initialProc\<lparr>templateCache := Some (Inr ''<html>'')\<rparr>)
        = (Inr ''<html>'', initialProc\<lparr>templateCache := Some (Inr ''<html>'')\<rparr>))"
proof -
  have n: "templateCache initialProc = None" by (simp add: initialProc_def)
  have s: "templateCache (initialProc\<lparr>templateCache := Some (Inr ''<html>'')\<rparr>)
      = Some (Inr ''<html>'')" by simp
  have a: "loadMany [w, v, v] initialProc =
        ([readFile w (TEMPLATE_PATH w), readFile w (TEMPLATE_PATH w),
          readFile w (TEMPLATE_PATH w)],
         initialProc\<lparr>templateCache := Some (readFile w (TEMPLATE_PATH w)),
           effects := [ReadFile (TEMPLATE_PATH w)]\<rparr>)" for w v
    using loadTemplate_cached[of initialProc w "[v, v]"] n
    by (simp add: initialProc_def)
  have b: "loadTemplate v (initialProc\<lparr>templateCache := Some (Inr ''<html>'')\<rparr>)
        = (Inr ''<html>'', initialProc\<lparr>templateCache := Some (Inr ''<html>'')\<rparr>)" for v
    using loadTemplate_cached[of _ _ _ "initialProc\<lparr>templateCache := Some (Inr ''<html>'')\<rparr>"
        "Inr ''<html>''" v] s
    by blast
  from n a b show ?thesis by blast
qed

section \<open>Title derivation: proofs\<close>

lemma heading_two_lines: "headingSearch None (''#'' @ [NL] @ ''foo'') = Some ''foo''"
  by code_simp

lemma heading_line_by_line:
  "map (headingSearch None) (splitOn NL (''#'' @ [NL] @ ''foo'')) = [None, None]"
  by code_simp

lemma heading_hello_world: "headingSearch None ''# Hello World'' = Some ''Hello World''"
  by code_simp

lemma deriveTitle_hello_world: "deriveTitle w ''# Hello World'' sourcePath = ''Hello World''"
proof -
  have t: "trim ''Hello World'' = ''Hello World''" by code_simp
  show ?thesis unfolding deriveTitle_def heading_hello_world by (simp add: t)
qed

lemma deriveTitle_no_heading:
  assumes "headingSearch None markdownContent = None"
  shows "deriveTitle w markdownContent sourcePath =
    (if pathBasename w sourcePath (pathExtname w sourcePath) = [] then ''Markdown Preview''
     else pathBasename w sourcePath (pathExtname w sourcePath))"
  using assms by (simp add: deriveTitle_def Let_def)

lemma greedyRun_longest:
  assumes "m \<le> length (takeWhile cls s)"
    and "k (takeWhile cls s) (dropWhile cls s) = Some r"
  shows "greedyRun cls m s k = Some r"
proof -
  let ?n = "length (takeWhile cls s)"
  have r: "rev [m ..< Suc ?n] = ?n # rev [m ..< ?n]" using assms(1) by simp
  have t: "take ?n s = takeWhile cls s"
    by (metis append_eq_conv_conj takeWhile_dropWhile_id)
  have d: "drop ?n s = dropWhile cls s"
    by (metis append_eq_conv_conj takeWhile_dropWhile_id)
  show ?thesis unfolding greedyRun_def r using assms(2) by (simp add: t d)
qed

lemma takeWhile_run:
  assumes "\<forall>c\<in>set xs. P c" and "ys = [] \<or> \<not> P (hd ys)"
  shows "takeWhile P (xs @ ys) = xs" and "dropWhile P (xs @ ys) = ys"
  using assms by (cases ys; simp)+

text \<open>A first line \<open># title\<close> gives its title, whatever follows on later lines.\<close>

lemma heading_on_first_line:
  assumes ws: "ws \<noteq> []" "\<forall>c\<in>set ws. isWhiteSpace c"
    and t: "t \<noteq> []" "\<not> isWhiteSpace (hd t)" "\<forall>c\<in>set t. \<not> isLineTerminator c"
    and rest: "rest = [] \<or> isLineTerminator (hd rest)"
  shows "headingSearch None (''#'' @ ws @ t @ rest) = Some t"
proof -
  have e: "atLineEnd rest" using rest by (cases rest) (auto simp: atLineEnd_def)
  have t1: "takeWhile (\<lambda>c. \<not> isLineTerminator c) (t @ rest) = t"
    and d1: "dropWhile (\<lambda>c. \<not> isLineTerminator c) (t @ rest) = rest"
    using takeWhile_run[of t "\<lambda>c. \<not> isLineTerminator c" rest] t(3) rest by auto
  have g3: "greedyRun (\<lambda>c. \<not> isLineTerminator c) 1 (t @ rest)
      (\<lambda>group1 s4. if atLineEnd s4 then Some group1 else None) = Some t"
    by (rule greedyRun_longest) (use t(1) e in \<open>simp_all add: t1 d1 Suc_le_eq\<close>)
  have t2: "takeWhile isWhiteSpace (ws @ t @ rest) = ws"
    and d2: "dropWhile isWhiteSpace (ws @ t @ rest) = t @ rest"
    using takeWhile_run[of ws isWhiteSpace "t @ rest"] ws(2) t(1,2) by auto
  have g2: "greedyRun isWhiteSpace 1 (ws @ t @ rest) (\<lambda>_ s3.
        greedyRun (\<lambda>c. \<not> isLineTerminator c) 1 s3
          (\<lambda>group1 s4. if atLineEnd s4 then Some group1 else None)) = Some t"
    by (rule greedyRun_longest) (use ws(1) g3 in \<open>simp_all add: t2 d2 Suc_le_eq\<close>)
  have nw: "\<not> isWhiteSpace (CHR ''#'')" by (simp add: isWhiteSpace_def)
  have m: "headingMatchAt None (CHR ''#'' # ws @ t @ rest) = Some t"
    unfolding headingMatchAt_def
    by (subst greedyRun_longest[where r = t]) (simp_all add: nw g2[unfolded One_nat_def] atLineStart_def)
  then show ?thesis by simp
qed

lemma deriveTitle_first_line:
  assumes "ws \<noteq> []" "\<forall>c\<in>set ws. isWhiteSpace c"
    and "t \<noteq> []" "\<not> isWhiteSpace (hd t)" "\<forall>c\<in>set t. \<not> isLineTerminator c"
    and "rest = [] \<or> isLineTerminator (hd rest)"
  shows "deriveTitle w (''#'' @ ws @ t @ rest) sourcePath = trim t"
  unfolding deriveTitle_def heading_on_first_line[OF assms] using assms(3) by simp

text \<open>
  C5 (the code departs from the claim). The markdown text has the two lines \<open>#\<close> and
  \<open>foo\<close>. Neither line, taken alone, matches the heading expression, so the text has no
  line of the form \<open># title\<close>; yet \<open>deriveTitle\<close> returns \<open>foo\<close>, whatever the path: the white
  space after \<open>#\<close> in \<open>/^\s*#\s+(.+)$/m\<close> runs over the line break, and the text of the next
  line is taken for the title instead of the base name of the file.
\<close>

theorem deriveTitle_crosses_lines:
  "deriveTitle w (''#'' @ [NL] @ ''foo'') ''notes.md'' = ''foo''
   \<and> map (headingSearch None) (splitOn NL (''#'' @ [NL] @ ''foo'')) = [None, None]"
proof -
  have t: "trim ''foo'' = ''foo''" by code_simp
  show ?thesis unfolding deriveTitle_def heading_two_lines heading_line_by_line
    by (simp add: t)
qed

section \<open>Diagram fences: proofs\<close>

lemma replaceAllChar_concat:
  "replaceAllChar c r (concat (map f s)) = concat (map (\<lambda>x. replaceAllChar c r (f x)) s)"
  by (induction s) (simp_all add: replaceAllChar_def)

lemma replaceAllChar_single: "replaceAllChar c r v = concat (map (\<lambda>x. replaceAllChar c r [x]) v)"
  by (induction v) (simp_all add: replaceAllChar_def)

lemma escapeHtml_chars: "escapeHtml v = concat (map escapeChar v)"
proof -
  have one: "replaceAllChar (CHR 0x27) ''&#39;''
       (replaceAllChar (CHR 0x22) ''&quot;''
         (replaceAllChar (CHR ''>'') ''&gt;''
           (replaceAllChar (CHR ''<'') ''&lt;''
             (replaceAllChar (CHR ''&'') ''&amp;'' [x])))) = escapeChar x" for x
    by (simp add: replaceAllChar_def escapeChar_def)
  have "escapeHtml v = concat (map (\<lambda>x. replaceAllChar (CHR 0x27) ''&#39;''
       (replaceAllChar (CHR 0x22) ''&quot;''
         (replaceAllChar (CHR ''>'') ''&gt;''
           (replaceAllChar (CHR ''<'') ''&lt;''
             (replaceAllChar (CHR ''&'') ''&amp;'' [x]))))) v)"
    unfolding escapeHtml_def
    by (subst replaceAllChar_single[of "CHR ''&''"]) (simp only: replaceAllChar_concat)
  then show ?thesis by (simp only: one)
qed

lemma escapeChar_safe:
  "c \<in> set (escapeChar x) \<Longrightarrow> c \<noteq> CHR ''<'' \<and> c \<noteq> CHR ''>'' \<and> c \<noteq> CHR 0x22 \<and> c \<noteq> CHR 0x27"
  by (auto simp: escapeChar_def split: if_splits)

lemma escapeHtml_safe:
  "c \<in> set (escapeHtml v) \<Longrightarrow> c \<noteq> CHR ''<'' \<and> c \<noteq> CHR ''>'' \<and> c \<noteq> CHR 0x22 \<and> c \<noteq> CHR 0x27"
  unfolding escapeHtml_chars using escapeChar_safe by auto

lemma firstSome_None: "(\<And>x. x \<in> set xs \<Longrightarrow> f x = None) \<Longrightarrow> firstSome f xs = None"
  by (induction xs) auto

lemma firstSome_map: "firstSome f (map g xs) = firstSome (f \<circ> g) xs"
  by (induction xs) (auto split: option.splits)

lemma trailingRunAt_iff: "trailingRunAt s \<longleftrightarrow> s \<noteq> [] \<and> (\<forall>c\<in>set s. isWhiteSpace c)"
proof (cases "s \<noteq> [] \<and> (\<forall>c\<in>set s. isWhiteSpace c)")
  case True
  then have tw: "takeWhile isWhiteSpace s = s" by simp
  from True have "1 \<le> length s" by (cases s) auto
  then have "rev [1 ..< Suc (length s)] = length s # rev [1 ..< length s]"
    by (simp add: upt_Suc)
  then have "greedyRun isWhiteSpace 1 s (\<lambda>_ r. if r = [] then Some () else None) = Some ()"
    by (simp add: greedyRun_def tw)
  with True show ?thesis by (simp add: trailingRunAt_def)
next
  case False
  have "greedyRun isWhiteSpace 1 s (\<lambda>_ r. if r = [] then Some () else None) = None"
    unfolding greedyRun_def
  proof (rule firstSome_None)
    fix n assume "n \<in> set (rev [1..<Suc (length (takeWhile isWhiteSpace s))])"
    then have n: "1 \<le> n" "n \<le> length (takeWhile isWhiteSpace s)" by auto
    have "n < length s"
    proof (rule ccontr)
      assume "\<not> n < length s"
      with n have "length (takeWhile isWhiteSpace s) = length s"
        using length_takeWhile_le[of isWhiteSpace s] by linarith
      then have "takeWhile isWhiteSpace s = s"
        by (metis append_self_conv length_append add_cancel_left_right length_0_conv takeWhile_dropWhile_id)
      then have "\<forall>c\<in>set s. isWhiteSpace c" by (metis set_takeWhileD)
      moreover from n \<open>\<not> n < length s\<close> have "s \<noteq> []" 
        using \<open>length (takeWhile isWhiteSpace s) = length s\<close> by auto
      ultimately show False using False by simp
    qed
    then show "(if drop n s = [] then Some () else None) = None" by simp
  qed
  with False show ?thesis by (simp add: trailingRunAt_def)
qed

lemma removeTrailingWhiteSpace_eq:
  "removeTrailingWhiteSpace s = withoutTrailingWhiteSpace s"
proof (induction s)
  case Nil
  then show ?case by (simp add: withoutTrailingWhiteSpace_def)
next
  case (Cons c cs)
  show ?case
  proof (cases "trailingRunAt (c # cs)")
    case True
    then have "\<forall>x\<in>set (rev (c # cs)). isWhiteSpace x" by (simp add: trailingRunAt_iff)
    then have "dropWhile isWhiteSpace (rev (c # cs)) = []" by (simp only: dropWhile_eq_Nil_conv)
    with True show ?thesis by (simp add: withoutTrailingWhiteSpace_def)
  next
    case False
    then have nall: "\<not> (isWhiteSpace c \<and> (\<forall>x\<in>set cs. isWhiteSpace x))"
      by (simp add: trailingRunAt_iff)
    have "rev (dropWhile isWhiteSpace (rev cs @ [c])) = c # rev (dropWhile isWhiteSpace (rev cs))"
      using nall by (auto simp: dropWhile_append)
    with False Cons show ?thesis by (simp add: withoutTrailingWhiteSpace_def)
  qed
qed


lemma lazy_findFence:
  "lazyRun (\<lambda>_. True) 0 s (\<lambda>code s2. if startsWith s2 ''```'' then Some (code, drop 3 s2) else None)
     = findFence s"
proof (induction s)
  case Nil
  then show ?case by (simp add: lazyRun_def startsWith_def)
next
  case (Cons c cs)
  have u: "[0 ..< Suc (Suc (length cs))] = 0 # map Suc [0 ..< Suc (length cs)]"
    by (simp only: map_Suc_upt upt_conv_Cons[of 0 "Suc (Suc (length cs))"])
  have tw: "takeWhile (\<lambda>_. True) xs = xs" for xs :: string by simp
  have m: "firstSome ((\<lambda>n. if startsWith (drop n (c # cs)) ''```''
              then Some (take n (c # cs), drop 3 (drop n (c # cs))) else None) \<circ> Suc) ns
        = map_option (\<lambda>(b, a). (c # b, a))
           (firstSome (\<lambda>n. if startsWith (drop n cs) ''```''
              then Some (take n cs, drop 3 (drop n cs)) else None) ns)" for ns
    by (induction ns) (auto split: option.splits)
  show ?case
    using Cons.IH
    unfolding lazyRun_def tw length_Cons u firstSome.simps firstSome_map m
    by (simp split: option.splits)
qed

lemma findFence_skip:
  assumes "c \<noteq> CHR 0x60"
  shows "findFence (c # cs) = map_option (\<lambda>(b, a). (c # b, a)) (findFence cs)"
  using assms by (simp add: startsWith_def)

lemma findFence_None_ws:
  assumes "\<forall>c\<in>set ws. isWhiteSpace c" "findFence s = None"
  shows "findFence (ws @ s) = None"
  using assms
proof (induction ws)
  case Nil
  then show ?case by simp
next
  case (Cons c ws)
  then have "c \<noteq> CHR 0x60" by (auto simp: isWhiteSpace_def)
  from findFence_skip[OF this] Cons show ?case by simp
qed

lemma greedy_ws_findFence:
  "greedyRun isWhiteSpace 0 x (\<lambda>_ s1. findFence s1) = findFence (dropWhile isWhiteSpace x)"
proof -
  let ?n = "length (takeWhile isWhiteSpace x)"
  have d: "drop ?n x = dropWhile isWhiteSpace x"
    by (metis append_eq_conv_conj takeWhile_dropWhile_id)
  have r: "rev [0 ..< Suc ?n] = ?n # rev [0 ..< ?n]" by simp
  show ?thesis
  proof (cases "findFence (dropWhile isWhiteSpace x)")
    case (Some r)
    then show ?thesis unfolding greedyRun_def r by (simp add: d)
  next
    case None
    have "firstSome (\<lambda>n. findFence (drop n x)) (rev [0 ..< ?n]) = None"
    proof (rule firstSome_None)
      fix n assume "n \<in> set (rev [0 ..< ?n])"
      then have n: "n < ?n" by simp
      have "drop n x = drop n (takeWhile isWhiteSpace x) @ dropWhile isWhiteSpace x"
        using n by (metis drop_append less_imp_le_nat diff_is_0_eq drop_0 takeWhile_dropWhile_id)
      moreover have "\<forall>c\<in>set (drop n (takeWhile isWhiteSpace x)). isWhiteSpace c"
        by (meson in_set_dropD set_takeWhileD)
      ultimately show "findFence (drop n x) = None"
        using findFence_None_ws None by simp
    qed
    with None show ?thesis unfolding greedyRun_def r by (simp add: d)
  qed
qed

lemma mermaidMatchAt_eq:
  "mermaidMatchAt s =
     (if startsWith s ''```mermaid'' then findFence (dropWhile isWhiteSpace (drop 10 s)) else None)"
  unfolding mermaidMatchAt_def lazy_findFence greedy_ws_findFence ..


declare replaceMermaid.simps [simp del]

lemma findFence_Some_split:
  "findFence s = Some (b, a) \<Longrightarrow> s = b @ ''```'' @ a"
proof (induction s arbitrary: b)
  case Nil
  then show ?case by simp
next
  case (Cons c cs)
  show ?case
  proof (cases "startsWith (c # cs) ''```''")
    case True
    with Cons.prems have "b = []" "a = drop 3 (c # cs)" by auto
    moreover from True have "c # cs = ''```'' @ drop 3 (c # cs)"
      unfolding startsWith_def by (metis append_take_drop_id length_Cons list.size(3) numeral_3_eq_3)
    ultimately show ?thesis by simp
  next
    case False
    with Cons.prems obtain b' where "findFence cs = Some (b', a)" "b = c # b'"
      by (auto split: option.splits)
    with Cons.IH show ?thesis by simp
  qed
qed

lemma findFence_Some_first:
  "findFence s = Some (b, a) \<Longrightarrow> i < length b \<Longrightarrow> \<not> startsWith (drop i s) ''```''"
proof (induction s arbitrary: b i)
  case Nil
  then show ?case by simp
next
  case (Cons c cs)
  show ?case
  proof (cases "startsWith (c # cs) ''```''")
    case True
    with Cons.prems show ?thesis by auto
  next
    case False
    with Cons.prems obtain b' where b': "findFence cs = Some (b', a)" "b = c # b'"
      by (auto split: option.splits)
    show ?thesis
    proof (cases i)
      case 0
      with False show ?thesis by simp
    next
      case (Suc j)
      with Cons.prems b' have "j < length b'" by simp
      from Cons.IH[OF b'(1) this] Suc show ?thesis by simp
    qed
  qed
qed

lemma findFence_firstAt: "findFence s = Some (b, a) \<longleftrightarrow> firstAt ''```'' s b a"
proof
  assume "findFence s = Some (b, a)"
  then show "firstAt ''```'' s b a"
    unfolding firstAt_def using findFence_Some_split findFence_Some_first by blast
next
  assume "firstAt ''```'' s b a"
  then show "findFence s = Some (b, a)"
  proof (induction b arbitrary: s)
    case Nil
    then have "s = ''```'' @ a" by (simp add: firstAt_def)
    then show ?case by (simp add: startsWith_def)
  next
    case (Cons c b)
    from Cons.prems have s: "s = c # (b @ ''```'' @ a)" and
      no: "\<forall>i<Suc (length b). \<not> startsWith (drop i s) ''```''"
      by (auto simp: firstAt_def)
    from no have n0: "\<not> startsWith s ''```''" by (metis drop0 zero_less_Suc)
    from no s have "\<forall>i<length b. \<not> startsWith (drop i (b @ ''```'' @ a)) ''```''"
      by (metis Suc_less_eq drop_Suc_Cons)
    then have "firstAt ''```'' (b @ ''```'' @ a) b a" by (simp add: firstAt_def)
    from Cons.IH[OF this] n0 s show ?case by simp
  qed
qed

lemma findFence_found: "findFence (x @ ''```'' @ y) \<noteq> None"
  by (induction x) (auto simp: startsWith_def)

lemma findFence_after_ws:
  "findFence s \<noteq> None \<Longrightarrow> findFence (dropWhile isWhiteSpace s) \<noteq> None"
proof (induction s)
  case Nil
  then show ?case by simp
next
  case (Cons c cs)
  show ?case
  proof (cases "isWhiteSpace c")
    case True
    then have "c \<noteq> CHR 0x60" by (auto simp: isWhiteSpace_def)
    from findFence_skip[OF this, of cs] Cons.prems have "findFence cs \<noteq> None" by auto
    with Cons.IH True show ?thesis by simp
  next
    case False
    with Cons.prems show ?thesis by simp
  qed
qed

lemma startsWith_split: "startsWith s p \<Longrightarrow> length p = n \<Longrightarrow> s = p @ drop n s"
  unfolding startsWith_def by (metis append_take_drop_id)

lemma mermaidMatchAt_Some_split:
  assumes "mermaidMatchAt s = Some (code, rest)"
  shows "s = ''```mermaid'' @ takeWhile isWhiteSpace (drop 10 s) @ code @ ''```'' @ rest"
proof -
  from assms have sw: "startsWith s ''```mermaid''"
    and f: "findFence (dropWhile isWhiteSpace (drop 10 s)) = Some (code, rest)"
    by (auto simp: mermaidMatchAt_eq split: if_splits)
  have "s = ''```mermaid'' @ drop 10 s" by (rule startsWith_split[OF sw]) simp
  also have "drop 10 s = takeWhile isWhiteSpace (drop 10 s) @ dropWhile isWhiteSpace (drop 10 s)"
    by simp
  also note findFence_Some_split[OF f]
  finally show ?thesis by simp
qed

lemma replaceMermaid_snd:
  "snd (replaceMermaid s) \<longleftrightarrow> (\<exists>i. mermaidMatchAt (drop i s) \<noteq> None)"
proof (induction s)
  case Nil
  have "mermaidMatchAt [] = None" by (simp add: mermaidMatchAt_eq startsWith_def)
  then show ?case by (subst replaceMermaid.simps) simp
next
  case (Cons c cs)
  show ?case
  proof (cases "mermaidMatchAt (c # cs)")
    case (Some r)
    then have "snd (replaceMermaid (c # cs))"
      by (subst replaceMermaid.simps) (simp split: prod.splits)
    moreover from Some have "mermaidMatchAt (drop 0 (c # cs)) \<noteq> None" by simp
    ultimately show ?thesis by blast
  next
    case None
    then have "snd (replaceMermaid (c # cs)) = snd (replaceMermaid cs)"
      by (subst replaceMermaid.simps) simp
    also have "\<dots> \<longleftrightarrow> (\<exists>i. mermaidMatchAt (drop i cs) \<noteq> None)" by (rule Cons.IH)
    also have "\<dots> \<longleftrightarrow> (\<exists>i. mermaidMatchAt (drop i (c # cs)) \<noteq> None)"
    proof
      assume "\<exists>i. mermaidMatchAt (drop i cs) \<noteq> None"
      then obtain i where "mermaidMatchAt (drop (Suc i) (c # cs)) \<noteq> None" by auto
      then show "\<exists>i. mermaidMatchAt (drop i (c # cs)) \<noteq> None" by blast
    next
      assume "\<exists>i. mermaidMatchAt (drop i (c # cs)) \<noteq> None"
      then obtain i where i: "mermaidMatchAt (drop i (c # cs)) \<noteq> None" by blast
      with None obtain j where "i = Suc j" by (cases i) auto
      with i show "\<exists>i. mermaidMatchAt (drop i cs) \<noteq> None" by auto
    qed
    finally show ?thesis .
  qed
qed

lemma replaceMermaid_no_match:
  "(\<And>i. mermaidMatchAt (drop i s) = None) \<Longrightarrow> replaceMermaid s = (s, False)"
proof (induction s)
  case Nil
  from Nil[of 0] show ?case by (subst replaceMermaid.simps) simp
next
  case (Cons c cs)
  from Cons.prems[of 0] have n: "mermaidMatchAt (c # cs) = None" by simp
  have "\<And>i. mermaidMatchAt (drop i cs) = None" using Cons.prems[of "Suc _"] by simp
  from Cons.IH[OF this] n show ?case by (subst replaceMermaid.simps) simp
qed

lemma replaceMermaid_prefix:
  "(\<And>i. i < length pre \<Longrightarrow> mermaidMatchAt (drop i (pre @ s)) = None) \<Longrightarrow>
     replaceMermaid (pre @ s) = (pre @ fst (replaceMermaid s), snd (replaceMermaid s))"
proof (induction pre)
  case Nil
  then show ?case by simp
next
  case (Cons c pre)
  from Cons.prems[of 0] have n: "mermaidMatchAt (c # pre @ s) = None" by simp
  have "\<And>i. i < length pre \<Longrightarrow> mermaidMatchAt (drop i (pre @ s)) = None"
    using Cons.prems[of "Suc _"] by simp
  from Cons.IH[OF this] n show ?case
    by (subst replaceMermaid.simps) simp
qed

lemma hasMermaidFence_match:
  "hasMermaidFence s \<longleftrightarrow> (\<exists>i. mermaidMatchAt (drop i s) \<noteq> None)"
proof
  assume "hasMermaidFence s"
  then obtain p mid post where s: "s = p @ ''```mermaid'' @ mid @ ''```'' @ post"
    unfolding hasMermaidFence_def by blast
  then have "drop (length p) s = ''```mermaid'' @ mid @ ''```'' @ post" by simp
  moreover have "findFence (dropWhile isWhiteSpace (mid @ ''```'' @ post)) \<noteq> None"
    by (rule findFence_after_ws[OF findFence_found])
  ultimately have "mermaidMatchAt (drop (length p) s) \<noteq> None"
    by (simp add: mermaidMatchAt_eq startsWith_def)
  then show "\<exists>i. mermaidMatchAt (drop i s) \<noteq> None" by blast
next
  assume "\<exists>i. mermaidMatchAt (drop i s) \<noteq> None"
  then obtain i code rest where "mermaidMatchAt (drop i s) = Some (code, rest)" by auto
  from mermaidMatchAt_Some_split[OF this]
  have "s = take i s @ ''```mermaid'' @ (takeWhile isWhiteSpace (drop 10 (drop i s)) @ code)
      @ ''```'' @ rest"
    by (metis append_assoc append_take_drop_id)
  then show "hasMermaidFence s" unfolding hasMermaidFence_def by blast
qed


lemma mermaidDiv_spec:
  \<open>mermaidDiv code = ''\<newline><div class="mermaid">''
     @ concat (map escapeChar (withoutTrailingWhiteSpace code)) @ ''</div>\<newline>''\<close>
  by (simp add: mermaidDiv_def removeTrailingWhiteSpace_eq escapeHtml_chars)

lemma replaceMermaid_first_fence:
  assumes "firstAt ''```mermaid'' md pre tail"
    and "firstAt ''```'' (dropWhile isWhiteSpace tail) body post"
  shows "replaceMermaid md = (pre @ mermaidDiv body @ fst (replaceMermaid post), True)"
proof -
  from assms(1) have md: "md = pre @ ''```mermaid'' @ tail"
    unfolding firstAt_def by blast
  from assms(1) have no: "\<And>i. i < length pre \<Longrightarrow> \<not> startsWith (drop i md) ''```mermaid''"
    unfolding firstAt_def by blast
  have "mermaidMatchAt (''```mermaid'' @ tail) = findFence (dropWhile isWhiteSpace tail)"
    by (simp add: mermaidMatchAt_eq startsWith_def)
  with assms(2) have m: "mermaidMatchAt (''```mermaid'' @ tail) = Some (body, post)"
    by (simp add: findFence_firstAt)
  have here: "replaceMermaid (''```mermaid'' @ tail)
      = (mermaidDiv body @ fst (replaceMermaid post), True)"
    by (subst replaceMermaid.simps) (simp only: m option.case prod.case)
  have "\<And>i. i < length pre \<Longrightarrow> mermaidMatchAt (drop i (pre @ ''```mermaid'' @ tail)) = None"
    using no unfolding md by (simp add: mermaidMatchAt_eq)
  from replaceMermaid_prefix[OF this] show ?thesis
    unfolding md here by simp
qed

lemma drop_append_le: "n \<le> length xs \<Longrightarrow> drop n (xs @ ys) = drop n xs @ ys"
  by simp

lemma hasMermaidFence_first:
  assumes "hasMermaidFence md"
  shows "\<exists>pre tail body post. firstAt ''```mermaid'' md pre tail
           \<and> firstAt ''```'' (dropWhile isWhiteSpace tail) body post"
proof -
  from assms obtain p mid post0 where md: "md = p @ ''```mermaid'' @ mid @ ''```'' @ post0"
    unfolding hasMermaidFence_def by blast
  define j where "j = (LEAST i. startsWith (drop i md) ''```mermaid'')"
  have ex: "startsWith (drop (length p) md) ''```mermaid''"
    unfolding md by (simp add: startsWith_def)
  then have sj: "startsWith (drop j md) ''```mermaid''"
    unfolding j_def by (rule LeastI)
  have jp: "j \<le> length p" unfolding j_def using ex by (rule Least_le)
  have least: "\<And>i. i < j \<Longrightarrow> \<not> startsWith (drop i md) ''```mermaid''"
    unfolding j_def by (rule not_less_Least)
  have split: "drop j md = ''```mermaid'' @ drop 10 (drop j md)"
    by (rule startsWith_split[OF sj]) simp
  define tail where "tail = drop 10 (drop j md)"
  have jl: "j \<le> length md" using jp md by simp
  have mdj: "md = take j md @ ''```mermaid'' @ tail"
    using split unfolding tail_def by (metis append_take_drop_id)
  have f1: "firstAt ''```mermaid'' md (take j md) tail"
    unfolding firstAt_def using mdj least jl by simp
  have t1: "tail = drop (10 + j) md"
    unfolding tail_def by (simp only: drop_drop)
  have le: "10 + j \<le> length (p @ ''```mermaid'' @ mid)" using jp by simp
  have "md = (p @ ''```mermaid'' @ mid) @ ''```'' @ post0" using md by simp
  then have "tail = drop (10 + j) ((p @ ''```mermaid'' @ mid) @ ''```'' @ post0)"
    using t1 by (simp only:)
  also have "\<dots> = drop (10 + j) (p @ ''```mermaid'' @ mid) @ ''```'' @ post0"
    using le by (rule drop_append_le)
  finally have "tail = drop (10 + j) (p @ ''```mermaid'' @ mid) @ ''```'' @ post0" .
  then have "findFence tail \<noteq> None" using findFence_found by metis
  then have "findFence (dropWhile isWhiteSpace tail) \<noteq> None" by (rule findFence_after_ws)
  then obtain body post where "findFence (dropWhile isWhiteSpace tail) = Some (body, post)"
    by auto
  then have "firstAt ''```'' (dropWhile isWhiteSpace tail) body post"
    by (simp add: findFence_firstAt)
  with f1 show ?thesis by blast
qed

text \<open>
  C10. \<open>renderMarkdown\<close> hands to the Markdown parser the text in which the fences are
  replaced, and returns the flag. The flag is true exactly when the text holds a fence
  (an opening \<open>```mermaid\<close> with a closing \<open>```\<close> after it); without a fence the text is
  unchanged. With a fence, the text splits at the first \<open>```mermaid\<close> and, after the white
  space that follows it, at the next \<open>```\<close>; the text before the fence is kept, the fence
  becomes \<open><div class="mermaid">\<close> around the body without its trailing white space, each
  of \<open>& < > " '\<close> replaced by its entity, and the text after the fence is treated the same
  way. What stands for the body holds none of \<open>< > " '\<close>.
\<close>

theorem renderMarkdown_mermaid:
  \<open>renderMarkdown w md = (markedParse w (fst (replaceMermaid md)), snd (replaceMermaid md))
   \<and> (snd (replaceMermaid md) \<longleftrightarrow> hasMermaidFence md)
   \<and> (\<not> hasMermaidFence md \<longrightarrow> fst (replaceMermaid md) = md)
   \<and> (hasMermaidFence md \<longrightarrow>
        (\<exists>pre tail body post. firstAt ''```mermaid'' md pre tail
           \<and> firstAt ''```'' (dropWhile isWhiteSpace tail) body post))
   \<and> (firstAt ''```mermaid'' md pre tail \<and> firstAt ''```'' (dropWhile isWhiteSpace tail) body post
        \<longrightarrow> fst (replaceMermaid md) =
              pre @ ''\<newline><div class="mermaid">''
              @ concat (map escapeChar (withoutTrailingWhiteSpace body))
              @ ''</div>\<newline>'' @ fst (replaceMermaid post))
   \<and> (\<forall>c\<in>set (concat (map escapeChar t)).
         c \<noteq> CHR ''<'' \<and> c \<noteq> CHR ''>'' \<and> c \<noteq> CHR 0x22 \<and> c \<noteq> CHR 0x27)\<close>
proof (intro conjI impI)
  show "renderMarkdown w md = (markedParse w (fst (replaceMermaid md)), snd (replaceMermaid md))"
    by (simp add: renderMarkdown_def split: prod.splits)
  show "snd (replaceMermaid md) \<longleftrightarrow> hasMermaidFence md"
    by (simp only: replaceMermaid_snd hasMermaidFence_match)
  show "fst (replaceMermaid md) = md" if "\<not> hasMermaidFence md"
  proof -
    have "mermaidMatchAt (drop i md) = None" for i
      using that hasMermaidFence_match[of md] by blast
    from replaceMermaid_no_match[OF this] show ?thesis by simp
  qed
  show "\<exists>pre tail body post. firstAt ''```mermaid'' md pre tail
           \<and> firstAt ''```'' (dropWhile isWhiteSpace tail) body post" if "hasMermaidFence md"
    using that by (rule hasMermaidFence_first)
  show \<open>fst (replaceMermaid md) =
              pre @ ''\<newline><div class="mermaid">''
              @ concat (map escapeChar (withoutTrailingWhiteSpace body))
              @ ''</div>\<newline>'' @ fst (replaceMermaid post)\<close>
    if "firstAt ''```mermaid'' md pre tail \<and> firstAt ''```'' (dropWhile isWhiteSpace tail) body post"
    using replaceMermaid_first_fence[of md pre tail body post] that
    by (simp add: mermaidDiv_spec)
  show "\<forall>c\<in>set (concat (map escapeChar t)).
         c \<noteq> CHR ''<'' \<and> c \<noteq> CHR ''>'' \<and> c \<noteq> CHR 0x22 \<and> c \<noteq> CHR 0x27"
    using escapeHtml_safe[of _ t] unfolding escapeHtml_chars by blast
qed

theorem renderMarkdown_mermaid_witness:
  \<open>firstAt ''```mermaid'' exampleDiagram ''a'' ''\<newline>A<B \<newline>```b''
   \<and> firstAt ''```'' (dropWhile isWhiteSpace ''\<newline>A<B \<newline>```b'') ''A<B \<newline>'' ''b''
   \<and> hasMermaidFence exampleDiagram
   \<and> snd (replaceMermaid exampleDiagram)
   \<and> fst (replaceMermaid exampleDiagram) = ''a\<newline><div class="mermaid">A&lt;B</div>\<newline>b''\<close>
proof -
  have f1: "firstAt ''```mermaid'' exampleDiagram ''a'' ''\<newline>A<B \<newline>```b''"
    by (simp add: firstAt_def exampleDiagram_def startsWith_def)
  have dw: "dropWhile isWhiteSpace ''\<newline>A<B \<newline>```b'' = ''A<B \<newline>```b''"
    by (simp add: isWhiteSpace_def)
  have f2: "firstAt ''```'' (dropWhile isWhiteSpace ''\<newline>A<B \<newline>```b'') ''A<B \<newline>'' ''b''"
    unfolding dw by (simp add: firstAt_def startsWith_def less_Suc_eq eval_nat_numeral)
  have h: "hasMermaidFence exampleDiagram"
    unfolding hasMermaidFence_def exampleDiagram_def
    by (rule exI[of _ "''a''"], rule exI[of _ "''\<newline>A<B \<newline>''"], rule exI[of _ "''b''"]) simp
  have b: "fst (replaceMermaid ''b'') = ''b''" by code_simp
  have t: "withoutTrailingWhiteSpace ''A<B \<newline>'' = ''A<B''"
    by (simp add: withoutTrailingWhiteSpace_def isWhiteSpace_def)
  have e: "concat (map escapeChar ''A<B'') = ''A&lt;B''"
    by (simp add: escapeChar_def)
  from renderMarkdown_mermaid[of _ exampleDiagram "''a''" "''\<newline>A<B \<newline>```b''" "''A<B \<newline>''" "''b''"]
    f1 f2 h
  have "snd (replaceMermaid exampleDiagram)"
    and \<open>fst (replaceMermaid exampleDiagram) =
              ''a'' @ ''\<newline><div class="mermaid">''
              @ concat (map escapeChar (withoutTrailingWhiteSpace ''A<B \<newline>''))
              @ ''</div>\<newline>'' @ fst (replaceMermaid ''b'')\<close>
    by blast+
  with f1 f2 h show ?thesis unfolding b t e by simp
qed

end
